theory Spec2Isabelle
  imports Main
begin

section \<open>The asynchronous task queue of \<^verbatim>\<open>src/core/queue.py\<close>\<close>

text \<open>
  A shallow embedding of \<^verbatim>\<open>QueueTask\<close> and \<^verbatim>\<open>AsyncQueue\<close>. The Redis server the
  queue talks to is a record of its keyspace; every coroutine of the class is a function
  from that record to the new record and either the value returned or the exception
  raised. The wall clock (\<^verbatim>\<open>datetime.utcnow()\<close>) is an argument of the operation
  that reads it. Log calls have no effect on the queue and are left out.
\<close>

subsection \<open>Enumerations and the task\<close>

datatype QueuePriority = LOW | NORMAL | HIGH | CRITICAL

text \<open>\<^verbatim>\<open>priority.value\<close>: the string of an enumeration member.\<close>

fun priority_value :: "QueuePriority \<Rightarrow> string" where
  "priority_value LOW = ''low''"
| "priority_value NORMAL = ''normal''"
| "priority_value HIGH = ''high''"
| "priority_value CRITICAL = ''critical''"

text \<open>\<^verbatim>\<open>PRIORITY_WEIGHTS\<close> of \<^verbatim>\<open>AsyncQueue.__init__\<close>.\<close>

fun PRIORITY_WEIGHTS :: "QueuePriority \<Rightarrow> nat" where
  "PRIORITY_WEIGHTS CRITICAL = 100"
| "PRIORITY_WEIGHTS HIGH = 75"
| "PRIORITY_WEIGHTS NORMAL = 50"
| "PRIORITY_WEIGHTS LOW = 25"

text \<open>
  Exceptions are values. \<open>ConnectionError\<close> is what a Redis command raises when the
  server cannot be reached, \<open>ValueError v\<close> what \<^verbatim>\<open>QueuePriority(v)\<close> raises on a string
  \<open>v\<close> that is no member's value, \<open>ProcessorError m\<close> an exception a task processor
  raises, with \<^verbatim>\<open>str(e) = m\<close>.
\<close>

datatype exn = ConnectionError | ValueError string | ProcessorError string

fun str_exn :: "exn \<Rightarrow> string" where
  "str_exn ConnectionError = ''Error connecting to Redis''"
| "str_exn (ValueError v) = CHR 0x27 # v @ CHR 0x27 # '' is not a valid QueuePriority''"
| "str_exn (ProcessorError m) = m"

text \<open>\<^verbatim>\<open>QueuePriority(v)\<close>: the member whose value is \<open>v\<close>.\<close>

definition QueuePriority_of :: "string \<Rightarrow> exn + QueuePriority" where
  "QueuePriority_of v =
     (if v = ''low'' then Inr LOW
      else if v = ''normal'' then Inr NORMAL
      else if v = ''high'' then Inr HIGH
      else if v = ''critical'' then Inr CRITICAL
      else Inl (ValueError v))"

text \<open>A JSON value, for the payload, which the queue never inspects.\<close>

datatype json = JNull | JBool bool | JInt int | JStr string
  | JList "json list" | JObj "(string \<times> json) list"

type_synonym payload = "(string \<times> json) list"

text \<open>
  A naive \<^verbatim>\<open>datetime\<close> is its number of microseconds since the epoch (negative before
  1970); \<^verbatim>\<open>timedelta(seconds=n)\<close> is \<open>n\<close> million of them. \<^verbatim>\<open>.timestamp()\<close> is read
  in the same unit: only the order of scores matters to the sorted set.
\<close>

type_synonym datetime = int

definition timedelta_seconds :: "nat \<Rightarrow> int" where
  "timedelta_seconds n = int n * 1000000"

definition timestamp :: "datetime \<Rightarrow> int" where
  "timestamp d = d"

text \<open>
  The ISO text of a datetime is determined by the datetime, and \<^verbatim>\<open>fromisoformat\<close> reads
  back what \<^verbatim>\<open>isoformat\<close> wrote.
\<close>

datatype isostring = Iso datetime

definition isoformat :: "datetime \<Rightarrow> isostring" where
  "isoformat d = Iso d"

fun fromisoformat :: "isostring \<Rightarrow> datetime" where
  "fromisoformat (Iso d) = d"

text \<open>
  The dataclass \<^verbatim>\<open>QueueTask\<close>. The counters \<^verbatim>\<open>max_retries\<close>, \<^verbatim>\<open>retry_count\<close> and
  \<^verbatim>\<open>delay_seconds\<close> are the non-negative integers of the data model. The dates are those
  of a constructed task, after \<^verbatim>\<open>__post_init__\<close>.
\<close>

record QueueTask =
  id' :: string
  queue_name :: string
  task_type :: string
  payload :: payload
  priority :: QueuePriority
  max_retries :: nat
  retry_count :: nat
  delay_seconds :: nat
  created_at :: datetime
  scheduled_at :: datetime

text \<open>
  The constructor with \<^verbatim>\<open>__post_init__\<close>: \<open>now\<close> is what \<^verbatim>\<open>datetime.utcnow()\<close> returns
  if it is read; a date that is \<open>None\<close> was not passed. Nothing is validated and nothing
  is raised.
\<close>

definition QueueTask_init ::
  "datetime \<Rightarrow> string \<Rightarrow> string \<Rightarrow> string \<Rightarrow> payload \<Rightarrow> QueuePriority \<Rightarrow> nat \<Rightarrow> nat \<Rightarrow> nat \<Rightarrow>
   datetime option \<Rightarrow> datetime option \<Rightarrow> exn + QueueTask" where
  "QueueTask_init now i qn tt pl pr mr rc ds ca sa =
     (let created = (case ca of None \<Rightarrow> now | Some c \<Rightarrow> c);
          scheduled = (case sa of None \<Rightarrow> created + timedelta_seconds ds | Some s \<Rightarrow> s)
      in Inr \<lparr>id' = i, queue_name = qn, task_type = tt, payload = pl, priority = pr,
              max_retries = mr, retry_count = rc, delay_seconds = ds,
              created_at = created, scheduled_at = scheduled\<rparr>)"

subsection \<open>The serialised record\<close>

text \<open>
  The dictionary that \<^verbatim>\<open>json.dumps\<close> turns into the text stored in Redis. Its keys are
  fixed, so it is a record; two texts are equal exactly when the records are. It has no
  \<^verbatim>\<open>delay_seconds\<close> key.
\<close>

record task_dict =
  d_id :: string
  d_queue_name :: string
  d_task_type :: string
  d_payload :: payload
  d_priority :: string
  d_max_retries :: nat
  d_retry_count :: nat
  d_created_at :: isostring
  d_scheduled_at :: isostring

text \<open>The entry of the failed list: the same dictionary with two more keys.\<close>

record failed_dict = task_dict +
  d_error_message :: "string option"
  d_failed_at :: isostring

definition task_to_dict :: "QueueTask \<Rightarrow> task_dict" where
  "task_to_dict task =
     \<lparr>d_id = id' task, d_queue_name = queue_name task, d_task_type = task_type task,
      d_payload = payload task, d_priority = priority_value (priority task),
      d_max_retries = max_retries task, d_retry_count = retry_count task,
      d_created_at = isoformat (created_at task),
      d_scheduled_at = isoformat (scheduled_at task)\<rparr>"

text \<open>\<^verbatim>\<open>_dict_to_task\<close> calls the constructor without \<^verbatim>\<open>delay_seconds\<close>, so with 0.\<close>

definition dict_to_task :: "datetime \<Rightarrow> task_dict \<Rightarrow> exn + QueueTask" where
  "dict_to_task now d =
     (case QueuePriority_of (d_priority d) of
        Inl e \<Rightarrow> Inl e
      | Inr p \<Rightarrow>
          QueueTask_init now (d_id d) (d_queue_name d) (d_task_type d) (d_payload d) p
            (d_max_retries d) (d_retry_count d) 0
            (Some (fromisoformat (d_created_at d))) (Some (fromisoformat (d_scheduled_at d))))"

subsection \<open>The Redis keyspace\<close>

text \<open>
  Lists have their head at the left end (\<^verbatim>\<open>LPUSH\<close> conses, \<^verbatim>\<open>BRPOP\<close> takes the last
  element). A sorted set is a list of members with their scores, one entry per member.
  The failed list holds entries of another shape and lives under keys that start with
  \<^verbatim>\<open>failed:\<close>, so it is a field of its own. \<open>faults\<close> is the fate of the commands to
  come: each command consumes the head, and raises \<open>ConnectionError\<close> when it is
  \<open>True\<close>; on the empty list every command goes through.
\<close>

record redis =
  faults :: "bool list"
  rlists :: "string \<Rightarrow> task_dict list"
  zsets :: "string \<Rightarrow> (task_dict \<times> int) list"
  rsets :: "string \<Rightarrow> task_dict set"
  failed_lists :: "string \<Rightarrow> failed_dict list"

type_synonym 'a prog = "redis \<Rightarrow> redis \<times> (exn + 'a)"

definition ret :: "'a \<Rightarrow> 'a prog" where
  "ret v s = (s, Inr v)"

definition raise_exn :: "exn \<Rightarrow> 'a prog" where
  "raise_exn e s = (s, Inl e)"

text \<open>Sequencing: an exception of the first part skips the rest.\<close>

definition andthen :: "'a prog \<Rightarrow> ('a \<Rightarrow> 'b prog) \<Rightarrow> 'b prog" where
  "andthen m f s = (case m s of (s', Inl e) \<Rightarrow> (s', Inl e) | (s', Inr v) \<Rightarrow> f v s')"

text \<open>\<^verbatim>\<open>try: m except Exception as e: h e\<close>.\<close>

definition try_except :: "'a prog \<Rightarrow> (exn \<Rightarrow> 'a prog) \<Rightarrow> 'a prog" where
  "try_except m h s = (case m s of (s', Inl e) \<Rightarrow> h e s' | (s', Inr v) \<Rightarrow> (s', Inr v))"

definition lift_result :: "exn + 'a \<Rightarrow> 'a prog" where
  "lift_result r s = (s, r)"

definition redis_call :: "(redis \<Rightarrow> redis \<times> 'a) \<Rightarrow> 'a prog" where
  "redis_call f s =
     (case faults s of
        [] \<Rightarrow> (case f s of (s', v) \<Rightarrow> (s', Inr v))
      | b # bs \<Rightarrow>
          if b then (s\<lparr>faults := bs\<rparr>, Inl ConnectionError)
          else (case f (s\<lparr>faults := bs\<rparr>) of (s', v) \<Rightarrow> (s', Inr v)))"

definition lpush :: "string \<Rightarrow> task_dict \<Rightarrow> unit prog" where
  "lpush key v = redis_call (\<lambda>s. (s\<lparr>rlists := (rlists s)(key := v # rlists s key)\<rparr>, ()))"

definition lpush_failed :: "string \<Rightarrow> failed_dict \<Rightarrow> unit prog" where
  "lpush_failed key v =
     redis_call (\<lambda>s. (s\<lparr>failed_lists := (failed_lists s)(key := v # failed_lists s key)\<rparr>, ()))"

text \<open>
  \<^verbatim>\<open>BRPOP key timeout\<close> with a positive timeout and no other client pushing meanwhile:
  the last element with the key, or nothing once the timeout has passed.
\<close>

definition brpop :: "string \<Rightarrow> (string \<times> task_dict) option prog" where
  "brpop key =
     redis_call (\<lambda>s.
       if rlists s key = [] then (s, None)
       else (s\<lparr>rlists := (rlists s)(key := butlast (rlists s key))\<rparr>,
             Some (key, last (rlists s key))))"

text \<open>\<^verbatim>\<open>ZADD\<close> of one member: a member already there keeps one entry, with the new score.\<close>

definition zadd :: "string \<Rightarrow> task_dict \<Rightarrow> int \<Rightarrow> unit prog" where
  "zadd key member score =
     redis_call (\<lambda>s.
       (s\<lparr>zsets := (zsets s)(key := (member, score) # filter (\<lambda>e. fst e \<noteq> member) (zsets s key))\<rparr>,
        ()))"

text \<open>
  \<^verbatim>\<open>ZRANGEBYSCORE key lo hi WITHSCORES\<close>: the entries with \<open>lo \<le> score \<le> hi\<close> by
  ascending score. Redis orders members of equal score by their bytes; here they keep
  their order in the list, and nothing below depends on the order among equal scores.
\<close>

definition zrangebyscore :: "string \<Rightarrow> int \<Rightarrow> int \<Rightarrow> (task_dict \<times> int) list prog" where
  "zrangebyscore key lo hi =
     redis_call (\<lambda>s. (s, sort_key snd (filter (\<lambda>e. lo \<le> snd e \<and> snd e \<le> hi) (zsets s key))))"

definition zrem :: "string \<Rightarrow> task_dict \<Rightarrow> unit prog" where
  "zrem key member =
     redis_call (\<lambda>s. (s\<lparr>zsets := (zsets s)(key := filter (\<lambda>e. fst e \<noteq> member) (zsets s key))\<rparr>, ()))"

definition sadd :: "string \<Rightarrow> task_dict \<Rightarrow> unit prog" where
  "sadd key member = redis_call (\<lambda>s. (s\<lparr>rsets := (rsets s)(key := insert member (rsets s key))\<rparr>, ()))"

definition srem :: "string \<Rightarrow> task_dict \<Rightarrow> unit prog" where
  "srem key member = redis_call (\<lambda>s. (s\<lparr>rsets := (rsets s)(key := rsets s key - {member})\<rparr>, ()))"

text \<open>The key names, built from the four prefixes of \<^verbatim>\<open>AsyncQueue.__init__\<close>.\<close>

definition queue_key :: "string \<Rightarrow> QueuePriority \<Rightarrow> string" where
  "queue_key qn p = ''queue'' @ '':'' @ qn @ '':'' @ priority_value p"

definition scheduled_key :: "string \<Rightarrow> string" where
  "scheduled_key qn = ''scheduled'' @ '':'' @ qn"

definition processing_key :: "string \<Rightarrow> string" where
  "processing_key qn = ''processing'' @ '':'' @ qn"

definition failed_key :: "string \<Rightarrow> string" where
  "failed_key qn = ''failed'' @ '':'' @ qn"

subsection \<open>The operations of \<^verbatim>\<open>AsyncQueue\<close>\<close>

text \<open>The dictionary literal that \<^verbatim>\<open>enqueue\<close> builds itself.\<close>

definition enqueue_task_data :: "QueueTask \<Rightarrow> task_dict" where
  "enqueue_task_data task =
     \<lparr>d_id = id' task, d_queue_name = queue_name task, d_task_type = task_type task,
      d_payload = payload task, d_priority = priority_value (priority task),
      d_max_retries = max_retries task, d_retry_count = retry_count task,
      d_created_at = isoformat (created_at task),
      d_scheduled_at = isoformat (scheduled_at task)\<rparr>"

definition enqueue :: "QueueTask \<Rightarrow> bool prog" where
  "enqueue task =
     try_except
       (andthen
          (if delay_seconds task > 0
           then zadd (scheduled_key (queue_name task)) (enqueue_task_data task)
                  (timestamp (scheduled_at task))
           else lpush (queue_key (queue_name task) (priority task)) (enqueue_task_data task))
          (\<lambda>_. ret True))
       (\<lambda>e. ret False)"

text \<open>The \<^verbatim>\<open>for\<close> loop of \<^verbatim>\<open>_process_scheduled_tasks\<close> over the entries that are due.\<close>

fun sweep_loop :: "string \<Rightarrow> (task_dict \<times> int) list \<Rightarrow> unit prog" where
  "sweep_loop qn [] = ret ()"
| "sweep_loop qn (e # rest) =
     andthen (zrem (scheduled_key qn) (fst e)) (\<lambda>_.
     andthen (lift_result (QueuePriority_of (d_priority (fst e)))) (\<lambda>p.
     andthen (lpush (queue_key qn p) (fst e)) (\<lambda>_.
     sweep_loop qn rest)))"

definition process_scheduled_tasks :: "string \<Rightarrow> datetime \<Rightarrow> unit prog" where
  "process_scheduled_tasks qn now =
     try_except
       (andthen (zrangebyscore (scheduled_key qn) 0 (timestamp now)) (sweep_loop qn))
       (\<lambda>e. ret ())"

text \<open>The \<^verbatim>\<open>for\<close> loop of \<^verbatim>\<open>dequeue\<close> over the priorities.\<close>

fun dequeue_loop :: "string \<Rightarrow> datetime \<Rightarrow> QueuePriority list \<Rightarrow> QueueTask option prog" where
  "dequeue_loop qn now [] = ret None"
| "dequeue_loop qn now (p # ps) =
     andthen (brpop (queue_key qn p)) (\<lambda>result.
       case result of
         Some (_, task_data) \<Rightarrow>
           andthen (sadd (processing_key qn) task_data) (\<lambda>_.
           andthen (lift_result (dict_to_task now task_data)) (\<lambda>t.
           ret (Some t)))
       | None \<Rightarrow> dequeue_loop qn now ps)"

definition dequeue :: "string \<Rightarrow> datetime \<Rightarrow> QueueTask option prog" where
  "dequeue qn now =
     try_except
       (andthen (process_scheduled_tasks qn now) (\<lambda>_.
        dequeue_loop qn now [CRITICAL, HIGH, NORMAL, LOW]))
       (\<lambda>e. ret None)"

definition complete_task :: "QueueTask \<Rightarrow> bool prog" where
  "complete_task task =
     try_except
       (andthen (srem (processing_key (queue_name task)) (task_to_dict task)) (\<lambda>_. ret True))
       (\<lambda>e. ret False)"

text \<open>
  \<^verbatim>\<open>fail_task\<close> assigns to fields of the task object it is given; the task as the call
  leaves it is returned beside the boolean.
\<close>

definition fail_task :: "QueueTask \<Rightarrow> string option \<Rightarrow> datetime \<Rightarrow> (QueueTask \<times> bool) prog" where
  "fail_task task error_message now =
     try_except
       (andthen (srem (processing_key (queue_name task)) (task_to_dict task)) (\<lambda>_.
          if retry_count task < max_retries task then
            (let task1 = task\<lparr>retry_count := retry_count task + 1\<rparr>;
                 task2 = task1\<lparr>delay_seconds := min (2 ^ retry_count task1 * 60) 3600\<rparr>;
                 task3 = task2\<lparr>scheduled_at := now + timedelta_seconds (delay_seconds task2)\<rparr>
             in andthen (enqueue task3) (\<lambda>ok. ret (task3, ok)))
          else
            andthen
              (lpush_failed (failed_key (queue_name task))
                 (task_dict.extend (task_to_dict task)
                    \<lparr>d_error_message = error_message, d_failed_at = isoformat now\<rparr>))
              (\<lambda>_. ret (task, False))))
       (\<lambda>e. ret (task, False))"

text \<open>
  A processor consumes the payload and returns a result or raises; the registry maps a
  task type to its processor.
\<close>

type_synonym processor = "payload \<Rightarrow> exn + json"

definition register_processor ::
  "(string \<rightharpoonup> processor) \<Rightarrow> string \<Rightarrow> processor \<Rightarrow> (string \<rightharpoonup> processor)" where
  "register_processor task_processors tt p = task_processors(tt \<mapsto> p)"

definition process_task :: "(string \<rightharpoonup> processor) \<Rightarrow> QueueTask \<Rightarrow> datetime \<Rightarrow> unit prog" where
  "process_task task_processors task now =
     try_except
       (case task_processors (task_type task) of
          None \<Rightarrow>
            andthen (fail_task task (Some (''No processor for task type: '' @ task_type task)) now)
              (\<lambda>_. ret ())
        | Some p \<Rightarrow>
            andthen (lift_result (p (payload task))) (\<lambda>result.
            andthen (complete_task task) (\<lambda>_. ret ())))
       (\<lambda>e. andthen (fail_task task (Some (str_exn e)) now) (\<lambda>_. ret ()))"

text \<open>
  One turn of the \<^verbatim>\<open>while self.running\<close> loop of \<^verbatim>\<open>start_worker\<close>, and the loop itself
  for as many turns as the clock is read before \<^verbatim>\<open>stop_worker\<close> clears the flag: each
  turn reads the clock once in \<^verbatim>\<open>dequeue\<close> and once when the task is processed.
\<close>

definition worker_turn ::
  "(string \<rightharpoonup> processor) \<Rightarrow> string \<Rightarrow> datetime \<times> datetime \<Rightarrow> unit prog" where
  "worker_turn task_processors qn clock =
     try_except
       (andthen (dequeue qn (fst clock)) (\<lambda>task.
          case task of
            Some t \<Rightarrow> process_task task_processors t (snd clock)
          | None \<Rightarrow> ret ()))
       (\<lambda>e. ret ())"

fun start_worker ::
  "(string \<rightharpoonup> processor) \<Rightarrow> string \<Rightarrow> (datetime \<times> datetime) list \<Rightarrow> unit prog" where
  "start_worker task_processors qn [] = ret ()"
| "start_worker task_processors qn (clock # clocks) =
     andthen (worker_turn task_processors qn clock) (\<lambda>_.
     start_worker task_processors qn clocks)"

subsection \<open>Notions used in the statements\<close>

text \<open>
  The task object as the retry branch of \<^verbatim>\<open>fail_task\<close> leaves it, and the entry the
  other branch pushes on the failed list.
\<close>

definition retried :: "QueueTask \<Rightarrow> datetime \<Rightarrow> QueueTask" where
  "retried t now =
     t\<lparr>retry_count := retry_count t + 1,
       delay_seconds := min (2 ^ (retry_count t + 1) * 60) 3600,
       scheduled_at := now + timedelta_seconds (min (2 ^ (retry_count t + 1) * 60) 3600)\<rparr>"

definition failed_entry :: "QueueTask \<Rightarrow> string option \<Rightarrow> datetime \<Rightarrow> failed_dict" where
  "failed_entry t msg now =
     task_dict.extend (task_to_dict t) \<lparr>d_error_message = msg, d_failed_at = isoformat now\<rparr>"

text \<open>The state in which the processing set of a queue has lost one record.\<close>

definition unmark_processing :: "string \<Rightarrow> task_dict \<Rightarrow> redis \<Rightarrow> redis" where
  "unmark_processing qn d s =
     s\<lparr>rsets := (rsets s)(processing_key qn := rsets s (processing_key qn) - {d})\<rparr>"

text \<open>
  What every command does first: it takes the head of \<open>faults\<close>, and raises when
  that head says so.
\<close>

definition consume :: "redis \<Rightarrow> redis" where
  "consume s = s\<lparr>faults := tl (faults s)\<rparr>"

definition fails_next :: "redis \<Rightarrow> bool" where
  "fails_next s = (case faults s of [] \<Rightarrow> False | b # bs \<Rightarrow> b)"

text \<open>
  The entries of the scheduled set that \<^verbatim>\<open>_process_scheduled_tasks\<close> finds due, and
  the state after \<^verbatim>\<open>dequeue\<close> has popped the oldest record of one ready list into the
  processing set.
\<close>

definition due :: "string \<Rightarrow> datetime \<Rightarrow> redis \<Rightarrow> (task_dict \<times> int) list" where
  "due qn now s =
     sort_key snd (filter (\<lambda>e. 0 \<le> snd e \<and> snd e \<le> timestamp now) (zsets s (scheduled_key qn)))"

definition popped :: "string \<Rightarrow> QueuePriority \<Rightarrow> redis \<Rightarrow> redis" where
  "popped qn p s =
     s\<lparr>rlists := (rlists s)(queue_key qn p := butlast (rlists s (queue_key qn p))),
       rsets := (rsets s)(processing_key qn :=
         insert (last (rlists s (queue_key qn p))) (rsets s (processing_key qn)))\<rparr>"

text \<open>
  Drivers that make successive calls: each call starts in the state the one before left.
  \<open>fail_repeatedly\<close> fails the task object again as the call before left it.
\<close>

fun enqueue_all :: "QueueTask list \<Rightarrow> redis \<Rightarrow> redis \<times> (exn + bool) list" where
  "enqueue_all [] s = (s, [])"
| "enqueue_all (t # ts) s =
     (case enqueue t s of (s1, r) \<Rightarrow>
        (case enqueue_all ts s1 of (s2, rs) \<Rightarrow> (s2, r # rs)))"

fun dequeue_run ::
  "string \<Rightarrow> datetime list \<Rightarrow> redis \<Rightarrow> redis \<times> (exn + QueueTask option) list" where
  "dequeue_run qn [] s = (s, [])"
| "dequeue_run qn (now # nows) s =
     (case dequeue qn now s of (s1, r) \<Rightarrow>
        (case dequeue_run qn nows s1 of (s2, rs) \<Rightarrow> (s2, r # rs)))"

fun fail_repeatedly ::
  "QueueTask \<Rightarrow> string option \<Rightarrow> datetime list \<Rightarrow> redis \<Rightarrow> redis \<times> (QueueTask \<times> bool) list" where
  "fail_repeatedly t msg [] s = (s, [])"
| "fail_repeatedly t msg (now # nows) s =
     (case fail_task t msg now s of
        (s1, Inl e) \<Rightarrow> (s1, [])
      | (s1, Inr (t1, ok)) \<Rightarrow>
          (case fail_repeatedly t1 msg nows s1 of (s2, rs) \<Rightarrow> (s2, (t1, ok) # rs)))"

text \<open>What \<^verbatim>\<open>dequeue\<close> returns for the record it has popped.\<close>

definition dequeue_result_of :: "datetime \<Rightarrow> task_dict \<Rightarrow> exn + QueueTask option" where
  "dequeue_result_of now d =
     (case dict_to_task now d of Inl e \<Rightarrow> Inr None | Inr t \<Rightarrow> Inr (Some t))"

text \<open>
  \<open>triple I m Q\<close>: the program \<open>m\<close> keeps the invariant \<open>I\<close>, whether it returns or
  raises, and a value it returns satisfies \<open>Q\<close>.
\<close>

definition triple :: "(redis \<Rightarrow> bool) \<Rightarrow> 'a prog \<Rightarrow> ('a \<Rightarrow> bool) \<Rightarrow> bool" where
  "triple I m Q \<longleftrightarrow> (\<forall>s. I s \<longrightarrow> I (fst (m s)) \<and> (\<forall>v. snd (m s) = Inr v \<longrightarrow> Q v))"

text \<open>
  The retry budget is respected: by a record, by a task, and by every record the server
  holds in a ready list, a scheduled set, a processing set or a failed list.
\<close>

definition dict_ok :: "'a task_dict_scheme \<Rightarrow> bool" where
  "dict_ok d \<longleftrightarrow> d_retry_count d \<le> d_max_retries d"

definition task_ok :: "QueueTask \<Rightarrow> bool" where
  "task_ok t \<longleftrightarrow> retry_count t \<le> max_retries t"

definition store_ok :: "redis \<Rightarrow> bool" where
  "store_ok s \<longleftrightarrow>
     (\<forall>k. (\<forall>d\<in>set (rlists s k). dict_ok d) \<and> (\<forall>e\<in>set (zsets s k). dict_ok (fst e)) \<and>
          (\<forall>d\<in>rsets s k. dict_ok d) \<and> (\<forall>d\<in>set (failed_lists s k). dict_ok d))"




text \<open>
  A queue with nothing ready and nothing scheduled; the message of \<^verbatim>\<open>_process_task\<close>
  for a task type without processor; and clocks that fit the retries of a task: each turn
  of the worker reads its first clock when the record of the task is due, the task being
  rescheduled at the second clock of the turn.
\<close>

definition queue_empty :: "string \<Rightarrow> redis \<Rightarrow> bool" where
  "queue_empty qn s \<longleftrightarrow>
     (\<forall>p. rlists s (queue_key qn p) = []) \<and> zsets s (scheduled_key qn) = []"

definition no_processor_message :: "QueueTask \<Rightarrow> string" where
  "no_processor_message t = ''No processor for task type: '' @ task_type t"

fun clocks_fit :: "QueueTask \<Rightarrow> (datetime \<times> datetime) list \<Rightarrow> bool" where
  "clocks_fit u [] = True"
| "clocks_fit u (c # cs) =
     ((delay_seconds u = 0 \<or>
       (0 \<le> timestamp (scheduled_at u) \<and> timestamp (scheduled_at u) \<le> timestamp (fst c))) \<and>
      clocks_fit (retried (u\<lparr>delay_seconds := 0\<rparr>) (snd c)) cs)"

text \<open>An empty server that answers every command.\<close>

definition empty_redis :: redis where
  "empty_redis =
     \<lparr>faults = [], rlists = (\<lambda>_. []), zsets = (\<lambda>_. []), rsets = (\<lambda>_. {}),
      failed_lists = (\<lambda>_. [])\<rparr>"

text \<open>A task as a producer builds it: only the priority, the budget and the delay vary.\<close>

definition sample_task :: "string \<Rightarrow> QueuePriority \<Rightarrow> nat \<Rightarrow> nat \<Rightarrow> QueueTask" where
  "sample_task i p mr ds =
     \<lparr>id' = i, queue_name = ''notif'', task_type = ''send'', payload = [],
      priority = p, max_retries = mr, retry_count = 0, delay_seconds = ds,
      created_at = 1000000, scheduled_at = 1000000 + timedelta_seconds ds\<rparr>"

section \<open>Serialisation\<close>

lemma enqueue_task_data_eq: "enqueue_task_data task = task_to_dict task"
  by (simp add: enqueue_task_data_def task_to_dict_def)

lemma QueuePriority_of_value: "QueuePriority_of (priority_value p) = Inr p"
  by (cases p) (simp_all add: QueuePriority_of_def)


lemma priority_value_inj: "priority_value p = priority_value q \<longleftrightarrow> p = q"
  by (cases p; cases q) simp_all

lemma queue_key_inj: "queue_key qn p = queue_key qn q \<longleftrightarrow> p = q"
  by (simp add: queue_key_def priority_value_inj)

lemma dict_to_task_to_dict: "dict_to_task now (task_to_dict t) = Inr (t\<lparr>delay_seconds := 0\<rparr>)"
  by (simp add: dict_to_task_def task_to_dict_def QueuePriority_of_value QueueTask_init_def
      isoformat_def)


lemma dict_to_task_delay: "dict_to_task now d = Inr t \<Longrightarrow> delay_seconds t = 0"
  by (auto simp add: dict_to_task_def QueueTask_init_def split: sum.splits)

section \<open>Commands and operations on a server that answers\<close>

lemmas prog_defs = ret_def raise_exn_def andthen_def try_except_def lift_result_def

lemma redis_call_ok: "faults s = [] \<Longrightarrow> redis_call f s = (fst (f s), Inr (snd (f s)))"
  by (simp add: redis_call_def split: prod.splits)

lemma lpush_ok:
  "faults s = [] \<Longrightarrow> lpush k v s = (s\<lparr>rlists := (rlists s)(k := v # rlists s k)\<rparr>, Inr ())"
  by (simp add: lpush_def redis_call_ok)

lemma lpush_failed_ok:
  "faults s = [] \<Longrightarrow>
   lpush_failed k v s = (s\<lparr>failed_lists := (failed_lists s)(k := v # failed_lists s k)\<rparr>, Inr ())"
  by (simp add: lpush_failed_def redis_call_ok)

lemma zadd_ok:
  "faults s = [] \<Longrightarrow>
   zadd k m sc s =
     (s\<lparr>zsets := (zsets s)(k := (m, sc) # filter (\<lambda>e. fst e \<noteq> m) (zsets s k))\<rparr>, Inr ())"
  by (simp add: zadd_def redis_call_ok)

lemma zrem_ok:
  "faults s = [] \<Longrightarrow>
   zrem k m s = (s\<lparr>zsets := (zsets s)(k := filter (\<lambda>e. fst e \<noteq> m) (zsets s k))\<rparr>, Inr ())"
  by (simp add: zrem_def redis_call_ok)

lemma sadd_ok:
  "faults s = [] \<Longrightarrow> sadd k m s = (s\<lparr>rsets := (rsets s)(k := insert m (rsets s k))\<rparr>, Inr ())"
  by (simp add: sadd_def redis_call_ok)

lemma srem_ok:
  "faults s = [] \<Longrightarrow> srem k m s = (s\<lparr>rsets := (rsets s)(k := rsets s k - {m})\<rparr>, Inr ())"
  by (simp add: srem_def redis_call_ok)

lemma brpop_ok:
  "faults s = [] \<Longrightarrow>
   brpop k s =
     (if rlists s k = [] then (s, Inr None)
      else (s\<lparr>rlists := (rlists s)(k := butlast (rlists s k))\<rparr>,
            Inr (Some (k, last (rlists s k)))))"
  by (simp add: brpop_def redis_call_ok)

lemma zrangebyscore_ok:
  "faults s = [] \<Longrightarrow>
   zrangebyscore k lo hi s =
     (s, Inr (sort_key snd (filter (\<lambda>e. lo \<le> snd e \<and> snd e \<le> hi) (zsets s k))))"
  by (simp add: zrangebyscore_def redis_call_ok)

lemma enqueue_ok:
  "faults s = [] \<Longrightarrow>
   enqueue t s =
     (if delay_seconds t > 0
      then s\<lparr>zsets := (zsets s)(scheduled_key (queue_name t) :=
                (task_to_dict t, timestamp (scheduled_at t)) #
                filter (\<lambda>e. fst e \<noteq> task_to_dict t) (zsets s (scheduled_key (queue_name t))))\<rparr>
      else s\<lparr>rlists := (rlists s)(queue_key (queue_name t) (priority t) :=
                task_to_dict t # rlists s (queue_key (queue_name t) (priority t)))\<rparr>,
      Inr True)"
  by (simp add: enqueue_def prog_defs zadd_ok lpush_ok enqueue_task_data_eq)

lemma complete_task_ok:
  "faults s = [] \<Longrightarrow>
   complete_task t s = (unmark_processing (queue_name t) (task_to_dict t) s, Inr True)"
  by (simp add: complete_task_def prog_defs srem_ok unmark_processing_def)

lemma fail_task_ok:
  "faults s = [] \<Longrightarrow>
   fail_task t msg now s =
     (if retry_count t < max_retries t
      then (fst (enqueue (retried t now) (unmark_processing (queue_name t) (task_to_dict t) s)),
            Inr (retried t now, True))
      else ((unmark_processing (queue_name t) (task_to_dict t) s)
              \<lparr>failed_lists := (failed_lists s)(failed_key (queue_name t) :=
                   failed_entry t msg now # failed_lists s (failed_key (queue_name t)))\<rparr>,
            Inr (t, False)))"
  by (simp add: fail_task_def prog_defs srem_ok lpush_failed_ok enqueue_ok retried_def Let_def
      unmark_processing_def failed_entry_def)

section \<open>Commands and operations on any server\<close>

lemma redis_call_cases:
  "redis_call f s =
     (if fails_next s then (consume s, Inl ConnectionError)
      else (fst (f (consume s)), Inr (snd (f (consume s)))))"
proof (cases "faults s")
  case Nil
  then have "consume s = s" by (cases s) (simp add: consume_def)
  with Nil show ?thesis by (simp add: redis_call_def fails_next_def split: prod.splits)
next
  case (Cons b bs)
  then show ?thesis by (simp add: redis_call_def fails_next_def consume_def split: prod.splits)
qed

lemma consume_fields [simp]:
  "rlists (consume s) = rlists s" "zsets (consume s) = zsets s" "rsets (consume s) = rsets s"
  "failed_lists (consume s) = failed_lists s" "faults (consume s) = tl (faults s)"
  by (simp_all add: consume_def)

lemma srem_cases:
  "srem k m s =
     (if fails_next s then (consume s, Inl ConnectionError)
      else ((consume s)\<lparr>rsets := (rsets s)(k := rsets s k - {m})\<rparr>, Inr ()))"
  by (simp add: srem_def redis_call_cases)

lemma lpush_failed_cases:
  "lpush_failed k v s =
     (if fails_next s then (consume s, Inl ConnectionError)
      else ((consume s)\<lparr>failed_lists := (failed_lists s)(k := v # failed_lists s k)\<rparr>, Inr ()))"
  by (simp add: lpush_failed_def redis_call_cases)

lemma zadd_cases:
  "zadd k m sc s =
     (if fails_next s then (consume s, Inl ConnectionError)
      else ((consume s)\<lparr>zsets := (zsets s)(k := (m, sc) # filter (\<lambda>e. fst e \<noteq> m) (zsets s k))\<rparr>,
            Inr ()))"
  by (simp add: zadd_def redis_call_cases)

lemma lpush_cases:
  "lpush k v s =
     (if fails_next s then (consume s, Inl ConnectionError)
      else ((consume s)\<lparr>rlists := (rlists s)(k := v # rlists s k)\<rparr>, Inr ()))"
  by (simp add: lpush_def redis_call_cases)

lemma fails_next_upd [simp]:
  "fails_next (s\<lparr>rlists := a\<rparr>) = fails_next s"
  "fails_next (s\<lparr>zsets := b\<rparr>) = fails_next s"
  "fails_next (s\<lparr>rsets := c\<rparr>) = fails_next s"
  "fails_next (s\<lparr>failed_lists := d\<rparr>) = fails_next s"
  by (simp_all add: fails_next_def)

lemma consume_upd [simp]:
  "consume (s\<lparr>rlists := a\<rparr>) = (consume s)\<lparr>rlists := a\<rparr>"
  "consume (s\<lparr>zsets := b\<rparr>) = (consume s)\<lparr>zsets := b\<rparr>"
  "consume (s\<lparr>rsets := c\<rparr>) = (consume s)\<lparr>rsets := c\<rparr>"
  "consume (s\<lparr>failed_lists := d\<rparr>) = (consume s)\<lparr>failed_lists := d\<rparr>"
  by (simp_all add: consume_def)

lemma enqueue_cases:
  "enqueue t s =
     (if fails_next s then (consume s, Inr False)
      else if 0 < delay_seconds t
      then ((consume s)\<lparr>zsets := (zsets s)(scheduled_key (queue_name t) :=
                (task_to_dict t, timestamp (scheduled_at t)) #
                filter (\<lambda>e. fst e \<noteq> task_to_dict t) (zsets s (scheduled_key (queue_name t))))\<rparr>,
            Inr True)
      else ((consume s)\<lparr>rlists := (rlists s)(queue_key (queue_name t) (priority t) :=
                task_to_dict t # rlists s (queue_key (queue_name t) (priority t)))\<rparr>,
            Inr True))"
  by (simp add: enqueue_def prog_defs zadd_cases lpush_cases enqueue_task_data_eq)

lemma complete_task_cases:
  "complete_task t s =
     (if fails_next s then (consume s, Inr False)
      else (unmark_processing (queue_name t) (task_to_dict t) (consume s), Inr True))"
  by (simp add: complete_task_def prog_defs srem_cases unmark_processing_def)

lemma retried_fields [simp]:
  "queue_name (retried t now) = queue_name t"
  "retry_count (retried t now) = retry_count t + 1"
  "max_retries (retried t now) = max_retries t"
  "priority (retried t now) = priority t"
  by (simp_all add: retried_def)

lemma retried_delay:
  "delay_seconds (retried t now) = min (2 ^ (retry_count t + 1) * 60) 3600"
  "scheduled_at (retried t now) = now + timedelta_seconds (delay_seconds (retried t now))"
  by (simp_all add: retried_def)

lemma retried_delay_positive: "0 < delay_seconds (retried t now)"
  by (simp add: retried_def)

lemma enqueue_retried:
  "enqueue (retried t now) s =
     (if fails_next s then (consume s, Inr False)
      else ((consume s)\<lparr>zsets := (zsets s)(scheduled_key (queue_name t) :=
                (task_to_dict (retried t now), timestamp (scheduled_at (retried t now))) #
                filter (\<lambda>e. fst e \<noteq> task_to_dict (retried t now))
                  (zsets s (scheduled_key (queue_name t))))\<rparr>,
            Inr True))"
  using retried_delay_positive [of t now] by (simp add: enqueue_cases)

lemma unmark_fields [simp]:
  "faults (unmark_processing qn d s) = faults s"
  "rlists (unmark_processing qn d s) = rlists s"
  "zsets (unmark_processing qn d s) = zsets s"
  "failed_lists (unmark_processing qn d s) = failed_lists s"
  "rsets (unmark_processing qn d s) = (rsets s)(processing_key qn := rsets s (processing_key qn) - {d})"
  by (simp_all add: unmark_processing_def)

lemma fails_next_unmark [simp]: "fails_next (unmark_processing qn d s) = fails_next s"
  by (simp add: unmark_processing_def)

lemma consume_unmark [simp]:
  "consume (unmark_processing qn d s) = unmark_processing qn d (consume s)"
  by (simp add: unmark_processing_def)

lemma consume_ok [simp]: "faults s = [] \<Longrightarrow> consume s = s"
  by (cases s) (simp add: consume_def)

lemma fails_next_ok [simp]: "faults s = [] \<Longrightarrow> \<not> fails_next s"
  by (simp add: fails_next_def)

lemma fail_task_cases:
  "fail_task t msg now s =
     (if fails_next s then (consume s, Inr (t, False))
      else if retry_count t < max_retries t
      then if fails_next (consume s)
        then (unmark_processing (queue_name t) (task_to_dict t) (consume (consume s)),
              Inr (retried t now, False))
        else ((unmark_processing (queue_name t) (task_to_dict t) (consume (consume s)))
                \<lparr>zsets := (zsets s)(scheduled_key (queue_name t) :=
                   (task_to_dict (retried t now), timestamp (scheduled_at (retried t now))) #
                   filter (\<lambda>e. fst e \<noteq> task_to_dict (retried t now))
                     (zsets s (scheduled_key (queue_name t))))\<rparr>,
              Inr (retried t now, True))
      else if fails_next (consume s)
      then (unmark_processing (queue_name t) (task_to_dict t) (consume (consume s)),
            Inr (t, False))
      else ((unmark_processing (queue_name t) (task_to_dict t) (consume (consume s)))
              \<lparr>failed_lists := (failed_lists s)(failed_key (queue_name t) :=
                   failed_entry t msg now # failed_lists s (failed_key (queue_name t)))\<rparr>,
            Inr (t, False)))"
proof -
  have "fail_task t msg now s =
     (if fails_next s then (consume s, Inr (t, False))
      else if retry_count t < max_retries t
      then (fst (enqueue (retried t now)
                   (unmark_processing (queue_name t) (task_to_dict t) (consume s))),
            Inr (retried t now, \<not> fails_next (consume s)))
      else if fails_next (consume s)
      then (unmark_processing (queue_name t) (task_to_dict t) (consume (consume s)),
            Inr (t, False))
      else ((unmark_processing (queue_name t) (task_to_dict t) (consume (consume s)))
              \<lparr>failed_lists := (failed_lists s)(failed_key (queue_name t) :=
                   failed_entry t msg now # failed_lists s (failed_key (queue_name t)))\<rparr>,
            Inr (t, False)))"
    by (simp add: fail_task_def prog_defs Let_def srem_cases lpush_failed_cases enqueue_cases
        retried_def unmark_processing_def failed_entry_def)
  then show ?thesis by (simp add: enqueue_retried)
qed

lemma fail_task_retry:
  assumes "faults s = []" and "retry_count t < max_retries t"
  shows "fail_task t msg now s =
     ((unmark_processing (queue_name t) (task_to_dict t) s)
        \<lparr>zsets := (zsets s)(scheduled_key (queue_name t) :=
           (task_to_dict (retried t now), timestamp (scheduled_at (retried t now))) #
           filter (\<lambda>e. fst e \<noteq> task_to_dict (retried t now))
             (zsets s (scheduled_key (queue_name t))))\<rparr>,
      Inr (retried t now, True))"
  using assms by (simp add: fail_task_cases)

section \<open>What \<^verbatim>\<open>dequeue\<close> returns\<close>

lemma dequeue_loop_step:
  "dequeue_loop qn now (p # ps) s =
     (case brpop (queue_key qn p) s of
        (s1, Inl e) \<Rightarrow> (s1, Inl e)
      | (s1, Inr None) \<Rightarrow> dequeue_loop qn now ps s1
      | (s1, Inr (Some (k, d))) \<Rightarrow>
          (case sadd (processing_key qn) d s1 of
             (s2, Inl e) \<Rightarrow> (s2, Inl e)
           | (s2, Inr u) \<Rightarrow>
               (s2, case dict_to_task now d of Inl e \<Rightarrow> Inl e | Inr t \<Rightarrow> Inr (Some t))))"
  by (simp add: prog_defs split: prod.splits sum.splits option.splits)

declare dequeue_loop.simps(2) [simp del]

lemma dequeue_loop_result:
  "snd (dequeue_loop qn now ps s) = Inr (Some t) \<Longrightarrow> \<exists>d. dict_to_task now d = Inr t"
proof (induction ps arbitrary: s)
  case Nil
  then show ?case by (simp add: prog_defs)
next
  case (Cons p ps)
  show ?case
  proof (cases "brpop (queue_key qn p) s")
    case (Pair s1 r)
    show ?thesis
    proof (cases r)
      case (Inl e)
      with Pair Cons.prems show ?thesis by (simp add: dequeue_loop_step)
    next
      case (Inr popped)
      show ?thesis
      proof (cases popped)
        case None
        with Pair Inr Cons.prems have "snd (dequeue_loop qn now ps s1) = Inr (Some t)"
          by (simp add: dequeue_loop_step)
        then show ?thesis by (rule Cons.IH)
      next
        case (Some kd)
        with Pair Inr Cons.prems show ?thesis
          by (cases kd) (auto simp add: dequeue_loop_step split: prod.splits sum.splits)
      qed
    qed
  qed
qed

lemma dequeue_result:
  assumes "snd (dequeue qn now s) = Inr (Some t)"
  shows "\<exists>d. dict_to_task now d = Inr t"
proof -
  obtain s1 r1 where sweep: "process_scheduled_tasks qn now s = (s1, r1)"
    by (cases "process_scheduled_tasks qn now s")
  from assms sweep have "snd (dequeue_loop qn now [CRITICAL, HIGH, NORMAL, LOW] s1) = Inr (Some t)"
    by (cases r1; cases "dequeue_loop qn now [CRITICAL, HIGH, NORMAL, LOW] s1")
      (auto simp add: dequeue_def prog_defs split: sum.splits)
  then show ?thesis by (rule dequeue_loop_result)
qed

section \<open>\<^verbatim>\<open>dequeue\<close> on a server that answers\<close>

lemma sweep_loop_faults: "faults s = [] \<Longrightarrow> faults (fst (sweep_loop qn es s)) = []"
proof (induction es arbitrary: s)
  case Nil
  then show ?case by (simp add: prog_defs)
next
  case (Cons e es)
  show ?case
  proof (cases "QueuePriority_of (d_priority (fst e))")
    case (Inl x)
    with Cons.prems show ?thesis by (simp add: prog_defs zrem_ok)
  next
    case (Inr p)
    with Cons.prems show ?thesis by (simp add: prog_defs zrem_ok lpush_ok Cons.IH)
  qed
qed

lemma process_scheduled_tasks_ok:
  "faults s = [] \<Longrightarrow>
   process_scheduled_tasks qn now s = (fst (sweep_loop qn (due qn now s) s), Inr ())"
  by (cases "sweep_loop qn (due qn now s) s")
     (simp add: process_scheduled_tasks_def prog_defs zrangebyscore_ok due_def split: sum.splits)

lemma process_scheduled_tasks_faults:
  "faults s = [] \<Longrightarrow> faults (fst (process_scheduled_tasks qn now s)) = []"
  by (simp add: process_scheduled_tasks_ok sweep_loop_faults)

lemma dequeue_loop_ok:
  "faults s = [] \<Longrightarrow>
   dequeue_loop qn now ps s =
     (case List.find (\<lambda>p. rlists s (queue_key qn p) \<noteq> []) ps of
        None \<Rightarrow> (s, Inr None)
      | Some p \<Rightarrow>
          (popped qn p s,
           case dict_to_task now (last (rlists s (queue_key qn p))) of
             Inl e \<Rightarrow> Inl e | Inr t \<Rightarrow> Inr (Some t)))"
proof (induction ps)
  case Nil
  then show ?case by (simp add: prog_defs)
next
  case (Cons p ps)
  then show ?case
    by (simp add: dequeue_loop_step brpop_ok sadd_ok popped_def)
qed

lemma dequeue_ok:
  assumes "faults s = []"
  shows "dequeue qn now s =
     (case List.find (\<lambda>p. rlists (fst (process_scheduled_tasks qn now s)) (queue_key qn p) \<noteq> [])
             [CRITICAL, HIGH, NORMAL, LOW] of
        None \<Rightarrow> (fst (process_scheduled_tasks qn now s), Inr None)
      | Some p \<Rightarrow>
          (popped qn p (fst (process_scheduled_tasks qn now s)),
           case dict_to_task now
                  (last (rlists (fst (process_scheduled_tasks qn now s)) (queue_key qn p))) of
             Inl e \<Rightarrow> Inr None | Inr t \<Rightarrow> Inr (Some t)))"
proof -
  obtain s1 where a: "process_scheduled_tasks qn now s = (s1, Inr ())"
    using assms by (simp add: process_scheduled_tasks_ok)
  have b: "faults s1 = []"
    using process_scheduled_tasks_faults [OF assms, of qn now] a by simp
  have "dequeue qn now s =
    (case dequeue_loop qn now [CRITICAL, HIGH, NORMAL, LOW] s1 of
       (s2, Inl e) \<Rightarrow> (s2, Inr None) | (s2, Inr v) \<Rightarrow> (s2, Inr v))"
    by (simp add: dequeue_def try_except_def andthen_def a ret_def split: prod.splits sum.splits)
  then show ?thesis
    by (simp add: dequeue_loop_ok [OF b] a split: option.splits sum.splits)
qed

lemma popped_fields [simp]:
  "faults (popped qn p s) = faults s"
  "zsets (popped qn p s) = zsets s"
  "failed_lists (popped qn p s) = failed_lists s"
  "rlists (popped qn p s) = (rlists s)(queue_key qn p := butlast (rlists s (queue_key qn p)))"
  "rsets (popped qn p s) = (rsets s)(processing_key qn :=
         insert (last (rlists s (queue_key qn p))) (rsets s (processing_key qn)))"
  by (simp_all add: popped_def)

lemma due_empty: "zsets s (scheduled_key qn) = [] \<Longrightarrow> due qn now s = []"
  by (simp add: due_def)

lemma dequeue_nothing_due:
  assumes "faults s = []" and "due qn now s = []"
  shows "dequeue qn now s =
     (case List.find (\<lambda>p. rlists s (queue_key qn p) \<noteq> []) [CRITICAL, HIGH, NORMAL, LOW] of
        None \<Rightarrow> (s, Inr None)
      | Some p \<Rightarrow>
          (popped qn p s,
           case dict_to_task now (last (rlists s (queue_key qn p))) of
             Inl e \<Rightarrow> Inr None | Inr t \<Rightarrow> Inr (Some t)))"
proof -
  have "fst (process_scheduled_tasks qn now s) = s"
    using assms by (simp add: process_scheduled_tasks_ok prog_defs)
  then show ?thesis using assms(1) by (simp add: dequeue_ok)
qed

lemma dequeue_takes_highest_ready:
  assumes "faults s = []" and "due qn now s = []"
    and "rlists s (queue_key qn p) \<noteq> []"
    and "\<forall>q. PRIORITY_WEIGHTS p < PRIORITY_WEIGHTS q \<longrightarrow> rlists s (queue_key qn q) = []"
  shows "dequeue qn now s =
          (popped qn p s,
           case dict_to_task now (last (rlists s (queue_key qn p))) of
             Inl e \<Rightarrow> Inr None | Inr t \<Rightarrow> Inr (Some t))"
proof -
  have "List.find (\<lambda>p. rlists s (queue_key qn p) \<noteq> []) [CRITICAL, HIGH, NORMAL, LOW] = Some p"
    using assms(3,4) by (cases p) auto
  then show ?thesis using assms(1,2) by (simp add: dequeue_nothing_due)
qed

lemma enqueue_ready:
  "faults s = [] \<Longrightarrow> delay_seconds t = 0 \<Longrightarrow>
   enqueue t s =
     (s\<lparr>rlists := (rlists s)(queue_key (queue_name t) (priority t) :=
          task_to_dict t # rlists s (queue_key (queue_name t) (priority t)))\<rparr>, Inr True)"
  by (simp add: enqueue_ok)

lemma dequeue_run_fifo:
  assumes "faults s = []" and "zsets s (scheduled_key qn) = []"
    and "\<forall>q. PRIORITY_WEIGHTS p < PRIORITY_WEIGHTS q \<longrightarrow> rlists s (queue_key qn q) = []"
    and "length nows \<le> length (rlists s (queue_key qn p))"
  shows "snd (dequeue_run qn nows s) =
           map2 dequeue_result_of nows (rev (rlists s (queue_key qn p)))"
  using assms
proof (induction nows arbitrary: s)
  case Nil
  then show ?case by simp
next
  case (Cons now nows)
  let ?L = "rlists s (queue_key qn p)"
  from Cons.prems(4) have ne: "?L \<noteq> []" by auto
  have deq: "dequeue qn now s = (popped qn p s, dequeue_result_of now (last ?L))"
    using dequeue_takes_highest_ready [OF Cons.prems(1) due_empty [OF Cons.prems(2)] ne Cons.prems(3)]
    by (simp add: dequeue_result_of_def)
  have hi: "\<forall>q. PRIORITY_WEIGHTS p < PRIORITY_WEIGHTS q \<longrightarrow>
      rlists (popped qn p s) (queue_key qn q) = []"
    using Cons.prems(3) by (auto simp add: queue_key_inj)
  have len: "length nows \<le> length (rlists (popped qn p s) (queue_key qn p))"
    using Cons.prems(4) by simp
  have ih: "snd (dequeue_run qn nows (popped qn p s)) =
      map2 dequeue_result_of nows (rev (butlast ?L))"
    using Cons.IH [of "popped qn p s"] Cons.prems(1,2) hi len by simp
  obtain xs x where L: "?L = xs @ [x]"
    using ne by (cases ?L rule: rev_cases) auto
  obtain s' rs where run: "dequeue_run qn nows (popped qn p s) = (s', rs)"
    by (cases "dequeue_run qn nows (popped qn p s)")
  from ih run L have "rs = map2 dequeue_result_of nows (rev xs)" by simp
  then show ?case by (simp add: deq run L)
qed

section \<open>Invariants of programs\<close>

lemma tripleI:
  "(\<And>s. I s \<Longrightarrow> I (fst (m s))) \<Longrightarrow> (\<And>s v. I s \<Longrightarrow> snd (m s) = Inr v \<Longrightarrow> Q v) \<Longrightarrow> triple I m Q"
  by (simp add: triple_def)

lemma tripleD:
  "triple I m Q \<Longrightarrow> I s \<Longrightarrow> I (fst (m s))"
  "triple I m Q \<Longrightarrow> I s \<Longrightarrow> snd (m s) = Inr v \<Longrightarrow> Q v"
  by (simp_all add: triple_def)

lemma triple_ret: "Q v \<Longrightarrow> triple I (ret v) Q"
  by (simp add: triple_def ret_def)

lemma triple_lift: "(\<And>v. r = Inr v \<Longrightarrow> Q v) \<Longrightarrow> triple I (lift_result r) Q"
  by (simp add: triple_def lift_result_def)

lemma triple_andthen:
  assumes "triple I m Q" and "\<And>v. Q v \<Longrightarrow> triple I (f v) R"
  shows "triple I (andthen m f) R"
proof (rule tripleI)
  fix s assume I: "I s"
  obtain s1 r where m: "m s = (s1, r)" by (cases "m s")
  from tripleD(1) [OF assms(1) I] m have I1: "I s1" by simp
  show "I (fst (andthen m f s))"
  proof (cases r)
    case (Inl e)
    with m I1 show ?thesis by (simp add: andthen_def)
  next
    case (Inr v)
    with tripleD(2) [OF assms(1) I, of v] m have "Q v" by simp
    from tripleD(1) [OF assms(2) [OF this] I1] m Inr show ?thesis by (simp add: andthen_def)
  qed
  fix w assume res: "snd (andthen m f s) = Inr w"
  show "R w"
  proof (cases r)
    case (Inl e)
    with m res show ?thesis by (simp add: andthen_def)
  next
    case (Inr v)
    with tripleD(2) [OF assms(1) I, of v] m have "Q v" by simp
    from tripleD(2) [OF assms(2) [OF this] I1, of w] m Inr res show ?thesis
      by (simp add: andthen_def)
  qed
qed

lemma triple_try_except:
  assumes "triple I m Q" and "\<And>e. triple I (h e) Q"
  shows "triple I (try_except m h) Q"
proof (rule tripleI)
  fix s assume I: "I s"
  obtain s1 r where m: "m s = (s1, r)" by (cases "m s")
  from tripleD(1) [OF assms(1) I] m have I1: "I s1" by simp
  show "I (fst (try_except m h s))"
  proof (cases r)
    case (Inl e)
    with tripleD(1) [OF assms(2) I1, of e] m show ?thesis by (simp add: try_except_def)
  next
    case (Inr v)
    with m I1 show ?thesis by (simp add: try_except_def)
  qed
  fix w assume res: "snd (try_except m h s) = Inr w"
  show "Q w"
  proof (cases r)
    case (Inl e)
    with tripleD(2) [OF assms(2) I1, of e w] m res show ?thesis by (simp add: try_except_def)
  next
    case (Inr v)
    with tripleD(2) [OF assms(1) I, of v] m res show ?thesis by (simp add: try_except_def)
  qed
qed

lemma triple_weaken: "triple I m Q \<Longrightarrow> (\<And>v. Q v \<Longrightarrow> R v) \<Longrightarrow> triple I m R"
  by (simp add: triple_def)

lemma triple_redis_call:
  assumes "\<And>s. I s \<Longrightarrow> I (consume s)"
    and "\<And>s. I s \<Longrightarrow> I (fst (f s)) \<and> Q (snd (f s))"
  shows "triple I (redis_call f) Q"
  using assms by (auto simp add: triple_def redis_call_cases)

lemma store_okD:
  "store_ok s \<Longrightarrow> d \<in> set (rlists s k) \<Longrightarrow> dict_ok d"
  "store_ok s \<Longrightarrow> (d, sc) \<in> set (zsets s k) \<Longrightarrow> dict_ok d"
  "store_ok s \<Longrightarrow> d \<in> rsets s k \<Longrightarrow> dict_ok d"
  "store_ok s \<Longrightarrow> f \<in> set (failed_lists s k) \<Longrightarrow> dict_ok f"
  by (fastforce simp add: store_ok_def)+

lemma store_okI:
  assumes "\<And>k d. d \<in> set (rlists s k) \<Longrightarrow> dict_ok d"
    and "\<And>k d sc. (d, sc) \<in> set (zsets s k) \<Longrightarrow> dict_ok d"
    and "\<And>k d. d \<in> rsets s k \<Longrightarrow> dict_ok d"
    and "\<And>k f. f \<in> set (failed_lists s k) \<Longrightarrow> dict_ok f"
  shows "store_ok s"
  using assms by (auto simp add: store_ok_def)

lemma store_ok_consume: "store_ok s \<Longrightarrow> store_ok (consume s)"
  by (simp add: store_ok_def)

lemma store_ok_lpush: "dict_ok d \<Longrightarrow> triple store_ok (lpush k d) (\<lambda>_. True)"
  unfolding lpush_def
  by (rule triple_redis_call)
     (auto simp add: store_ok_consume intro!: store_okI dest: store_okD split: if_splits)

lemma store_ok_lpush_failed: "dict_ok d \<Longrightarrow> triple store_ok (lpush_failed k d) (\<lambda>_. True)"
  unfolding lpush_failed_def
  by (rule triple_redis_call)
     (auto simp add: store_ok_consume intro!: store_okI dest: store_okD split: if_splits)

lemma store_ok_zadd: "dict_ok d \<Longrightarrow> triple store_ok (zadd k d sc) (\<lambda>_. True)"
  unfolding zadd_def
  by (rule triple_redis_call)
     (auto simp add: store_ok_consume intro!: store_okI dest: store_okD split: if_splits)

lemma store_ok_zrem: "triple store_ok (zrem k d) (\<lambda>_. True)"
  unfolding zrem_def
  by (rule triple_redis_call)
     (auto simp add: store_ok_consume intro!: store_okI dest: store_okD split: if_splits)

lemma store_ok_sadd: "dict_ok d \<Longrightarrow> triple store_ok (sadd k d) (\<lambda>_. True)"
  unfolding sadd_def
  by (rule triple_redis_call)
     (auto simp add: store_ok_consume intro!: store_okI dest: store_okD split: if_splits)

lemma store_ok_srem: "triple store_ok (srem k d) (\<lambda>_. True)"
  unfolding srem_def
  by (rule triple_redis_call)
     (auto simp add: store_ok_consume intro!: store_okI dest: store_okD split: if_splits)

lemma store_ok_brpop:
  "triple store_ok (brpop k) (\<lambda>r. \<forall>k' d. r = Some (k', d) \<longrightarrow> dict_ok d)"
  unfolding brpop_def
proof (rule triple_redis_call)
  fix s assume ok: "store_ok s"
  then show "store_ok (consume s)" by (rule store_ok_consume)
  let ?f = "\<lambda>s. if rlists s k = [] then (s, None)
       else (s\<lparr>rlists := (rlists s)(k := butlast (rlists s k))\<rparr>, Some (k, last (rlists s k)))"
  have "store_ok (s\<lparr>rlists := (rlists s)(k := butlast (rlists s k))\<rparr>)"
  proof (rule store_okI)
    fix k' d assume "d \<in> set (rlists (s\<lparr>rlists := (rlists s)(k := butlast (rlists s k))\<rparr>) k')"
    then have "d \<in> set (rlists s k')" by (auto split: if_splits dest: in_set_butlastD)
    with ok show "dict_ok d" by (rule store_okD(1))
  qed (use ok in \<open>auto dest: store_okD\<close>)
  moreover have "dict_ok (last (rlists s k))" if "rlists s k \<noteq> []"
    using that ok by (auto intro: store_okD(1) [of s _ k])
  ultimately show "store_ok (fst (?f s)) \<and> (\<forall>k' d. snd (?f s) = Some (k', d) \<longrightarrow> dict_ok d)"
    using ok by simp
qed

lemma store_ok_zrangebyscore:
  "triple store_ok (zrangebyscore k lo hi) (\<lambda>es. \<forall>e\<in>set es. dict_ok (fst e))"
  unfolding zrangebyscore_def
  by (rule triple_redis_call) (auto simp add: store_ok_consume dest: store_okD)


lemma dict_ok_task_to_dict: "task_ok t \<Longrightarrow> dict_ok (task_to_dict t)"
  by (simp add: dict_ok_def task_ok_def task_to_dict_def)

lemma task_ok_dict_to_task: "dict_ok d \<Longrightarrow> dict_to_task now d = Inr t \<Longrightarrow> task_ok t"
  by (auto simp add: dict_ok_def task_ok_def dict_to_task_def QueueTask_init_def split: sum.splits)

lemma store_ok_enqueue: "task_ok t \<Longrightarrow> triple store_ok (enqueue t) (\<lambda>_. True)"
  unfolding enqueue_def enqueue_task_data_eq
  by (intro triple_try_except triple_andthen [where Q = "\<lambda>_. True"] triple_ret)
     (simp_all add: store_ok_zadd store_ok_lpush dict_ok_task_to_dict)

lemma store_ok_sweep_loop:
  "\<forall>e\<in>set es. dict_ok (fst e) \<Longrightarrow> triple store_ok (sweep_loop qn es) (\<lambda>_. True)"
proof (induction es)
  case Nil
  show ?case by (simp add: triple_ret)
next
  case (Cons e es)
  then have e: "dict_ok (fst e)" and rest: "triple store_ok (sweep_loop qn es) (\<lambda>_. True)"
    by simp_all
  show ?case
    unfolding sweep_loop.simps
    by (intro triple_andthen [where Q = "\<lambda>_. True"] store_ok_zrem triple_lift store_ok_lpush
        e rest TrueI)
qed

lemma store_ok_process_scheduled_tasks:
  "triple store_ok (process_scheduled_tasks qn now) (\<lambda>_. True)"
  unfolding process_scheduled_tasks_def
  by (intro triple_try_except triple_andthen [OF store_ok_zrangebyscore] store_ok_sweep_loop
      triple_ret TrueI)

lemma store_ok_dequeue_loop:
  "triple store_ok (dequeue_loop qn now ps) (\<lambda>r. \<forall>t. r = Some t \<longrightarrow> task_ok t)"
proof (induction ps)
  case Nil
  show ?case by (simp add: triple_ret)
next
  case (Cons p ps)
  show ?case
    unfolding dequeue_loop.simps
  proof (rule triple_andthen [OF store_ok_brpop])
    fix r :: "(string \<times> task_dict) option"
    assume r: "\<forall>k' d. r = Some (k', d) \<longrightarrow> dict_ok d"
    show "triple store_ok
           (case r of
              None \<Rightarrow> dequeue_loop qn now ps
            | Some (x, task_data) \<Rightarrow>
                andthen (sadd (processing_key qn) task_data) (\<lambda>_.
                andthen (lift_result (dict_to_task now task_data)) (\<lambda>t. ret (Some t))))
           (\<lambda>r. \<forall>t. r = Some t \<longrightarrow> task_ok t)"
    proof (cases r)
      case None
      with Cons.IH show ?thesis by simp
    next
      case (Some kd)
      obtain k d where kd: "kd = (k, d)" by (cases kd)
      with Some r have d: "dict_ok d" by simp
      have "triple store_ok
          (andthen (sadd (processing_key qn) d) (\<lambda>_.
           andthen (lift_result (dict_to_task now d)) (\<lambda>t. ret (Some t))))
          (\<lambda>r. \<forall>t. r = Some t \<longrightarrow> task_ok t)"
        by (intro triple_andthen [OF store_ok_sadd [OF d]]
              triple_andthen [where Q = "task_ok"] triple_lift triple_ret)
           (auto intro: task_ok_dict_to_task [OF d])
      with Some kd show ?thesis by simp
    qed
  qed
qed

lemma store_ok_dequeue:
  "triple store_ok (dequeue qn now) (\<lambda>r. \<forall>t. r = Some t \<longrightarrow> task_ok t)"
  unfolding dequeue_def
  by (intro triple_try_except triple_andthen [OF store_ok_process_scheduled_tasks]
      store_ok_dequeue_loop triple_ret) simp

lemma store_ok_complete_task: "triple store_ok (complete_task t) (\<lambda>_. True)"
  unfolding complete_task_def
  by (intro triple_try_except triple_andthen [OF store_ok_srem] triple_ret TrueI)

lemma task_ok_retried: "retry_count t < max_retries t \<Longrightarrow> task_ok (retried t now)"
  by (simp add: task_ok_def)

lemma store_ok_fail_task:
  assumes "task_ok t"
  shows "triple store_ok (fail_task t msg now) (\<lambda>r. task_ok (fst r))"
proof -
  have retry: "triple store_ok (andthen (enqueue (retried t now)) (\<lambda>ok. ret (retried t now, ok)))
      (\<lambda>r. task_ok (fst r))" if "retry_count t < max_retries t"
    by (intro triple_andthen [OF store_ok_enqueue] triple_ret)
       (simp_all add: task_ok_retried that)
  have give_up: "triple store_ok
      (andthen (lpush_failed (failed_key (queue_name t)) (failed_entry t msg now))
         (\<lambda>_. ret (t, False)))
      (\<lambda>r. task_ok (fst r))"
    using assms
    by (intro triple_andthen [OF store_ok_lpush_failed] triple_ret)
       (simp_all add: failed_entry_def dict_ok_def task_ok_def task_to_dict_def task_dict.defs)
  show ?thesis
    unfolding fail_task_def Let_def
    using retry give_up assms
    by (intro triple_try_except triple_andthen [OF store_ok_srem] triple_ret)
       (simp_all add: retried_def failed_entry_def)
qed

section \<open>The worker\<close>

lemma store_ok_process_task:
  assumes "task_ok t"
  shows "triple store_ok (process_task task_processors t now) (\<lambda>_. True)"
proof -
  have f: "triple store_ok (andthen (fail_task t m now) (\<lambda>_. ret ())) (\<lambda>_. True)" for m
    by (intro triple_andthen [OF store_ok_fail_task [OF assms]] triple_ret TrueI)
  have body: "triple store_ok
      (case task_processors (task_type t) of
          None \<Rightarrow>
            andthen (fail_task t (Some (''No processor for task type: '' @ task_type t)) now)
              (\<lambda>_. ret ())
        | Some p \<Rightarrow>
            andthen (lift_result (p (payload t))) (\<lambda>result.
            andthen (complete_task t) (\<lambda>_. ret ())))
      (\<lambda>_. True)"
  proof (cases "task_processors (task_type t)")
    case None
    then show ?thesis by (simp add: f)
  next
    case (Some p)
    have "triple store_ok
        (andthen (lift_result (p (payload t))) (\<lambda>result.
         andthen (complete_task t) (\<lambda>_. ret ()))) (\<lambda>_. True)"
      by (intro triple_andthen [where Q = "\<lambda>_. True"] triple_lift store_ok_complete_task
          triple_ret TrueI)
    with Some show ?thesis by simp
  qed
  show ?thesis
    unfolding process_task_def by (intro triple_try_except body f)
qed

lemma store_ok_worker_turn: "triple store_ok (worker_turn task_processors qn clock) (\<lambda>_. True)"
  unfolding worker_turn_def
proof (intro triple_try_except triple_andthen [OF store_ok_dequeue] triple_ret TrueI)
  fix r :: "QueueTask option"
  assume "\<forall>t. r = Some t \<longrightarrow> task_ok t"
  then show "triple store_ok
      (case r of None \<Rightarrow> ret () | Some t \<Rightarrow> process_task task_processors t (snd clock))
      (\<lambda>_. True)"
    by (cases r) (simp_all add: triple_ret store_ok_process_task)
qed

lemma store_ok_start_worker:
  "triple store_ok (start_worker task_processors qn clocks) (\<lambda>_. True)"
proof (induction clocks)
  case Nil
  show ?case by (simp add: triple_ret)
next
  case (Cons c cs)
  show ?case
    unfolding start_worker.simps
    by (intro triple_andthen [OF store_ok_worker_turn] Cons.IH)
qed

lemma fail_task_returns: "\<exists>t' ok. snd (fail_task t msg now s) = Inr (t', ok)"
  by (auto simp add: fail_task_cases)

lemma process_task_returns: "snd (process_task task_processors t now s) = Inr ()"
proof -
  have f: "snd (andthen (fail_task t m now) (\<lambda>_. ret ()) u) = Inr ()" for m u
    using fail_task_returns [of t m now u]
    by (cases "fail_task t m now u") (auto simp add: prog_defs)
  have c: "snd (andthen (complete_task t) (\<lambda>_. ret ()) u) = Inr ()" for u
    by (simp add: andthen_def ret_def complete_task_cases)
  show ?thesis
  proof (cases "task_processors (task_type t)")
    case None
    with f [of "Some (''No processor for task type: '' @ task_type t)" s] show ?thesis
      by (cases "andthen (fail_task t (Some (''No processor for task type: '' @ task_type t)) now)
              (\<lambda>_. ret ()) s")
         (simp add: process_task_def try_except_def)
  next
    case (Some p)
    show ?thesis
    proof (cases "p (payload t)")
      case (Inl e)
      with Some f [of "Some (str_exn e)" s] show ?thesis
        by (simp add: process_task_def try_except_def andthen_def lift_result_def
            split: prod.splits sum.splits)
    next
      case (Inr v)
      with Some c [of s] show ?thesis
        by (cases "andthen (complete_task t) (\<lambda>_. ret ()) s")
           (simp add: process_task_def try_except_def andthen_def lift_result_def)
    qed
  qed
qed

lemma worker_turn_returns: "snd (worker_turn task_processors qn clock s) = Inr ()"
  by (simp add: worker_turn_def try_except_def ret_def split: prod.splits sum.splits)

lemma start_worker_returns: "snd (start_worker task_processors qn clocks s) = Inr ()"
proof (induction clocks arbitrary: s)
  case Nil
  show ?case by (simp add: ret_def)
next
  case (Cons c cs)
  obtain s1 where "worker_turn task_processors qn c s = (s1, Inr ())"
    using worker_turn_returns [of task_processors qn c s]
    by (cases "worker_turn task_processors qn c s") simp
  then show ?case by (simp add: andthen_def Cons.IH)
qed

lemma process_task_no_processor:
  assumes "task_processors (task_type t) = None"
  shows "process_task task_processors t now s =
    (fst (fail_task t (Some (''No processor for task type: '' @ task_type t)) now s), Inr ())"
  using assms fail_task_returns [of t "Some (''No processor for task type: '' @ task_type t)" now s]
  by (cases "fail_task t (Some (''No processor for task type: '' @ task_type t)) now s")
     (auto simp add: process_task_def prog_defs)

lemma process_task_processor_raises:
  assumes "task_processors (task_type t) = Some p" and "p (payload t) = Inl e"
  shows "process_task task_processors t now s =
    (fst (fail_task t (Some (str_exn e)) now s), Inr ())"
  using assms fail_task_returns [of t "Some (str_exn e)" now s]
  by (cases "fail_task t (Some (str_exn e)) now s") (auto simp add: process_task_def prog_defs)

lemma store_ok_empty: "store_ok empty_redis"
  by (simp add: store_ok_def empty_redis_def)

section \<open>Scheduled tasks\<close>

























section \<open>A task nobody can process\<close>

lemma dequeue_lone_task:
  assumes "faults s0 = []" and "queue_empty qn s0" and "queue_name u = qn"
    and "delay_seconds u = 0 \<or>
         (0 \<le> timestamp (scheduled_at u) \<and> timestamp (scheduled_at u) \<le> timestamp now)"
  shows "dequeue qn now (fst (enqueue u s0)) =
     (s0\<lparr>rsets := (rsets s0)(processing_key qn :=
           insert (task_to_dict u) (rsets s0 (processing_key qn)))\<rparr>,
      Inr (Some (u\<lparr>delay_seconds := 0\<rparr>)))"
proof -
  let ?d = "task_to_dict u" and ?p = "priority u"
  let ?s1 = "fst (enqueue u s0)"
  define s4 where "s4 = s0\<lparr>rlists := (rlists s0)(queue_key qn ?p := [?d])\<rparr>"
  have empty: "rlists s0 (queue_key qn p) = []" "zsets s0 (scheduled_key qn) = []" for p
    using assms(2) by (simp_all add: queue_empty_def)
  have prio: "d_priority ?d = priority_value ?p" by (simp add: task_to_dict_def)
  have f1: "faults ?s1 = []" using assms(1) by (simp add: enqueue_ok)
  have sweep: "fst (process_scheduled_tasks qn now ?s1) = s4"
  proof (cases "delay_seconds u = 0")
    case True
    then have s1: "?s1 = s4" using assms(1,3) by (simp add: enqueue_ok s4_def empty)
    have "due qn now s4 = []" by (simp add: due_def s4_def empty)
    then show ?thesis unfolding s1 using assms(1)
      by (simp add: process_scheduled_tasks_ok prog_defs s4_def)
  next
    case False
    with assms(4) have sc: "0 \<le> timestamp (scheduled_at u)"
      "timestamp (scheduled_at u) \<le> timestamp now" by simp_all
    have s1: "?s1 = s0\<lparr>zsets := (zsets s0)(scheduled_key qn := [(?d, timestamp (scheduled_at u))])\<rparr>"
      using False assms(1,3) by (simp add: enqueue_ok empty)
    have due1: "due qn now ?s1 = [(?d, timestamp (scheduled_at u))]"
      unfolding s1 using sc by (simp add: due_def)
    have z: "(zsets s0)(scheduled_key qn := []) = zsets s0"
      using empty(2) by (simp add: fun_upd_idem)
    show ?thesis
      unfolding process_scheduled_tasks_ok [OF f1] due1 unfolding s1 using assms(1)
      by (simp add: prog_defs zrem_ok lpush_ok prio QueuePriority_of_value empty s4_def z)
  qed
  have l4: "rlists s4 (queue_key qn q) = (if q = ?p then [?d] else [])" for q
    by (simp add: s4_def empty queue_key_inj)
  have found: "List.find (\<lambda>p. rlists s4 (queue_key qn p) \<noteq> []) [CRITICAL, HIGH, NORMAL, LOW] =
      Some ?p"
    by (cases ?p) (simp_all add: l4)
  have l: "(rlists s0)(queue_key qn ?p := []) = rlists s0"
    using empty(1) by (simp add: fun_upd_idem)
  have pop: "popped qn ?p s4 = s0\<lparr>rsets := (rsets s0)(processing_key qn :=
           insert ?d (rsets s0 (processing_key qn)))\<rparr>"
    by (simp add: popped_def s4_def l)
  show ?thesis
    unfolding dequeue_ok [OF f1] sweep found by (simp add: l4 dict_to_task_to_dict pop)
qed

lemma worker_turn_lone_task:
  assumes "faults s0 = []" and "queue_empty qn s0" and "queue_name u = qn"
    and "task_processors (task_type u) = None"
    and "delay_seconds u = 0 \<or>
         (0 \<le> timestamp (scheduled_at u) \<and> timestamp (scheduled_at u) \<le> timestamp (fst c))"
  shows "worker_turn task_processors qn c (fst (enqueue u s0)) =
     (if retry_count u < max_retries u
      then fst (enqueue (retried (u\<lparr>delay_seconds := 0\<rparr>) (snd c))
                  (unmark_processing qn (task_to_dict u) s0))
      else (unmark_processing qn (task_to_dict u) s0)
             \<lparr>failed_lists := (failed_lists s0)(failed_key qn :=
                failed_entry (u\<lparr>delay_seconds := 0\<rparr>) (Some (no_processor_message u)) (snd c) #
                failed_lists s0 (failed_key qn))\<rparr>,
      Inr ())"
proof -
  let ?u0 = "u\<lparr>delay_seconds := 0\<rparr>"
  let ?m = "s0\<lparr>rsets := (rsets s0)(processing_key qn :=
           insert (task_to_dict u) (rsets s0 (processing_key qn)))\<rparr>"
  have deq: "dequeue qn (fst c) (fst (enqueue u s0)) = (?m, Inr (Some ?u0))"
    by (rule dequeue_lone_task [OF assms(1,2,3,5)])
  have np: "task_processors (task_type ?u0) = None" using assms(4) by simp
  have d0: "task_to_dict ?u0 = task_to_dict u" by (simp add: task_to_dict_def)
  have un: "unmark_processing qn (task_to_dict u) ?m = unmark_processing qn (task_to_dict u) s0"
    by (simp add: unmark_processing_def)
  have fm: "faults ?m = []" using assms(1) by simp
  have fail: "fst (fail_task ?u0 (Some (no_processor_message u)) (snd c) ?m) =
     (if retry_count u < max_retries u
      then fst (enqueue (retried ?u0 (snd c)) (unmark_processing qn (task_to_dict u) s0))
      else (unmark_processing qn (task_to_dict u) s0)
             \<lparr>failed_lists := (failed_lists s0)(failed_key qn :=
                failed_entry ?u0 (Some (no_processor_message u)) (snd c) #
                failed_lists s0 (failed_key qn))\<rparr>)"
    using assms(3) by (simp add: fail_task_ok [OF fm] d0 un)
  have "worker_turn task_processors qn c (fst (enqueue u s0)) =
      process_task task_processors ?u0 (snd c) ?m"
    using process_task_returns [of task_processors ?u0 "snd c" ?m]
    by (cases "process_task task_processors ?u0 (snd c) ?m")
       (simp add: worker_turn_def try_except_def andthen_def deq)
  also have "\<dots> = (fst (fail_task ?u0 (Some (no_processor_message u)) (snd c) ?m), Inr ())"
    using process_task_no_processor [of task_processors ?u0 "snd c" ?m] np
    by (simp add: no_processor_message_def)
  finally show ?thesis by (simp add: fail)
qed


lemma retried_names [simp]:
  "task_type (retried t now) = task_type t" "id' (retried t now) = id' t"
  "payload (retried t now) = payload t"
  by (simp_all add: retried_def)

lemma queue_empty_unmark [simp]:
  "queue_empty qn (unmark_processing qn' d s) = queue_empty qn s"
  by (simp add: queue_empty_def)

lemma worker_exhausts_retries:
  assumes "task_processors (task_type u) = None"
    and "faults s0 = []" and "queue_empty qn s0" and "queue_name u = qn"
    and "retry_count u \<le> max_retries u"
    and "length cs = max_retries u - retry_count u + 1"
    and "clocks_fit u cs"
  shows "faults (fst (start_worker task_processors qn cs (fst (enqueue u s0)))) = [] \<and>
     queue_empty qn (fst (start_worker task_processors qn cs (fst (enqueue u s0)))) \<and>
     (\<exists>u'. failed_lists (fst (start_worker task_processors qn cs (fst (enqueue u s0))))
             (failed_key qn) =
           failed_entry u' (Some (no_processor_message u)) (snd (last cs)) #
           failed_lists s0 (failed_key qn) \<and>
         id' u' = id' u \<and> task_type u' = task_type u \<and>
         max_retries u' = max_retries u \<and> retry_count u' = max_retries u)"
  using assms
proof (induction cs arbitrary: u s0)
  case Nil
  then show ?case by simp
next
  case (Cons c cs)
  let ?u0 = "u\<lparr>delay_seconds := 0\<rparr>"
  let ?s0' = "unmark_processing qn (task_to_dict u) s0"
  from Cons.prems(7) have fit: "delay_seconds u = 0 \<or>
      (0 \<le> timestamp (scheduled_at u) \<and> timestamp (scheduled_at u) \<le> timestamp (fst c))"
    and fit': "clocks_fit (retried ?u0 (snd c)) cs" by simp_all
  note turn = worker_turn_lone_task [of s0 qn u task_processors c, OF Cons.prems(2,3,4,1) fit]
  have f': "faults ?s0' = []" and e': "queue_empty qn ?s0'"
    using Cons.prems(2,3) by simp_all
  show ?case
  proof (cases "retry_count u < max_retries u")
    case True
    let ?u1 = "retried ?u0 (snd c)"
    have run: "start_worker task_processors qn (c # cs) (fst (enqueue u s0)) =
        start_worker task_processors qn cs (fst (enqueue ?u1 ?s0'))"
      using True by (simp add: andthen_def turn)
    have np: "task_processors (task_type ?u1) = None" using Cons.prems(1) by simp
    have qn: "queue_name ?u1 = qn" using Cons.prems(4) by simp
    have le: "retry_count ?u1 \<le> max_retries ?u1" using True by simp
    have len: "length cs = max_retries ?u1 - retry_count ?u1 + 1"
      using True Cons.prems(6) by simp
    then have ne: "cs \<noteq> []" by auto
    from Cons.IH [OF np f' e' qn le len fit'] ne show ?thesis
      unfolding run by (simp add: no_processor_message_def)
  next
    case False
    with Cons.prems(5,6) have cs: "cs = []" and eq: "retry_count u = max_retries u" by simp_all
    have run: "start_worker task_processors qn (c # cs) (fst (enqueue u s0)) =
        (?s0'\<lparr>failed_lists := (failed_lists s0)(failed_key qn :=
                failed_entry ?u0 (Some (no_processor_message u)) (snd c) #
                failed_lists s0 (failed_key qn))\<rparr>, Inr ())"
      using False by (simp add: andthen_def turn cs ret_def)
    have "queue_empty qn (?s0'\<lparr>failed_lists := (failed_lists s0)(failed_key qn :=
                failed_entry ?u0 (Some (no_processor_message u)) (snd c) #
                failed_lists s0 (failed_key qn))\<rparr>)"
      using e' by (simp add: queue_empty_def)
    moreover have "id' ?u0 = id' u \<and> task_type ?u0 = task_type u \<and>
         max_retries ?u0 = max_retries u \<and> retry_count ?u0 = max_retries u"
      using eq by simp
    ultimately show ?thesis
      unfolding run using Cons.prems(2) by (auto simp add: cs)
  qed
qed


lemma failed_entry_fields [simp]:
  "d_id (failed_entry t msg now) = id' t"
  "d_retry_count (failed_entry t msg now) = retry_count t"
  "d_max_retries (failed_entry t msg now) = max_retries t"
  "d_task_type (failed_entry t msg now) = task_type t"
  "d_error_message (failed_entry t msg now) = msg"
  "d_failed_at (failed_entry t msg now) = isoformat now"
  by (simp_all add: failed_entry_def task_to_dict_def task_dict.defs)

section \<open>The claims\<close>

subsection \<open>Order of delivery\<close>

text \<open>
  Claim C1. On a server that answers, for a queue with nothing in its scheduled set:
  when the CRITICAL ready list is not empty, \<^verbatim>\<open>dequeue\<close> pops its oldest record,
  whatever the other ready lists hold; and when the four ready lists are empty and tasks
  of priorities LOW, NORMAL, HIGH, CRITICAL are enqueued in that order with no delay, the
  next four calls of \<^verbatim>\<open>dequeue\<close> return the CRITICAL, the HIGH, the NORMAL and the LOW
  task, and a fifth returns nothing.
\<close>

theorem dequeue_priority_order:
  assumes "faults s = []" and "zsets s (scheduled_key qn) = []"
  shows
  "(rlists s (queue_key qn CRITICAL) \<noteq> [] \<longrightarrow>
      dequeue qn now s =
        (popped qn CRITICAL s,
         case dict_to_task now (last (rlists s (queue_key qn CRITICAL))) of
           Inl e \<Rightarrow> Inr None | Inr t \<Rightarrow> Inr (Some t))) \<and>
   ((\<forall>p. rlists s (queue_key qn p) = []) \<and>
    queue_name tL = qn \<and> queue_name tN = qn \<and> queue_name tH = qn \<and> queue_name tC = qn \<and>
    priority tL = LOW \<and> priority tN = NORMAL \<and> priority tH = HIGH \<and> priority tC = CRITICAL \<and>
    delay_seconds tL = 0 \<and> delay_seconds tN = 0 \<and> delay_seconds tH = 0 \<and>
    delay_seconds tC = 0 \<longrightarrow>
      snd (enqueue_all [tL, tN, tH, tC] s) = [Inr True, Inr True, Inr True, Inr True] \<and>
      snd (dequeue_run qn [n1, n2, n3, n4, n5] (fst (enqueue_all [tL, tN, tH, tC] s))) =
        [Inr (Some tC), Inr (Some tH), Inr (Some tN), Inr (Some tL), Inr None])"
proof (intro conjI impI)
  assume "rlists s (queue_key qn CRITICAL) \<noteq> []"
  moreover have "\<forall>q. PRIORITY_WEIGHTS CRITICAL < PRIORITY_WEIGHTS q \<longrightarrow> rlists s (queue_key qn q) = []"
  proof
    fix q show "PRIORITY_WEIGHTS CRITICAL < PRIORITY_WEIGHTS q \<longrightarrow> rlists s (queue_key qn q) = []"
      by (cases q) simp_all
  qed
  ultimately show "dequeue qn now s =
        (popped qn CRITICAL s,
         case dict_to_task now (last (rlists s (queue_key qn CRITICAL))) of
           Inl e \<Rightarrow> Inr None | Inr t \<Rightarrow> Inr (Some t))"
    using assms by (intro dequeue_takes_highest_ready due_empty)
next
  assume h: "(\<forall>p. rlists s (queue_key qn p) = []) \<and>
    queue_name tL = qn \<and> queue_name tN = qn \<and> queue_name tH = qn \<and> queue_name tC = qn \<and>
    priority tL = LOW \<and> priority tN = NORMAL \<and> priority tH = HIGH \<and> priority tC = CRITICAL \<and>
    delay_seconds tL = 0 \<and> delay_seconds tN = 0 \<and> delay_seconds tH = 0 \<and>
    delay_seconds tC = 0"
  then have empty: "\<And>p. rlists s (queue_key qn p) = []" by simp
  define s4 where "s4 = s\<lparr>rlists := (rlists s)
      (queue_key qn LOW := [task_to_dict tL], queue_key qn NORMAL := [task_to_dict tN],
       queue_key qn HIGH := [task_to_dict tH], queue_key qn CRITICAL := [task_to_dict tC])\<rparr>"
  have enq: "enqueue_all [tL, tN, tH, tC] s = (s4, [Inr True, Inr True, Inr True, Inr True])"
    using h assms(1) by (simp add: enqueue_ready empty queue_key_inj s4_def)
  show "snd (enqueue_all [tL, tN, tH, tC] s) = [Inr True, Inr True, Inr True, Inr True]"
    unfolding enq by simp
  have rt: "dict_to_task n (task_to_dict tC) = Inr tC" "dict_to_task n (task_to_dict tH) = Inr tH"
    "dict_to_task n (task_to_dict tN) = Inr tN" "dict_to_task n (task_to_dict tL) = Inr tL" for n
    using h by (simp_all add: dict_to_task_to_dict)
  define s5 where "s5 = popped qn CRITICAL s4"
  define s6 where "s6 = popped qn HIGH s5"
  define s7 where "s7 = popped qn NORMAL s6"
  define s8 where "s8 = popped qn LOW s7"
  have f: "faults s4 = []" "faults s5 = []" "faults s6 = []" "faults s7 = []" "faults s8 = []"
    using assms(1) by (simp_all add: s4_def s5_def s6_def s7_def s8_def)
  have z: "due qn n s4 = []" "due qn n s5 = []" "due qn n s6 = []" "due qn n s7 = []"
    "due qn n s8 = []" for n
    using assms(2) by (simp_all add: due_empty s4_def s5_def s6_def s7_def s8_def)
  have l4: "rlists s4 (queue_key qn CRITICAL) = [task_to_dict tC]"
    "rlists s4 (queue_key qn HIGH) = [task_to_dict tH]"
    "rlists s4 (queue_key qn NORMAL) = [task_to_dict tN]"
    "rlists s4 (queue_key qn LOW) = [task_to_dict tL]"
    by (simp_all add: s4_def queue_key_inj)
  have l5: "rlists s5 (queue_key qn CRITICAL) = []"
    "rlists s5 (queue_key qn HIGH) = [task_to_dict tH]"
    "rlists s5 (queue_key qn NORMAL) = [task_to_dict tN]"
    "rlists s5 (queue_key qn LOW) = [task_to_dict tL]"
    by (simp_all add: s5_def l4 queue_key_inj)
  have l6: "rlists s6 (queue_key qn CRITICAL) = []"
    "rlists s6 (queue_key qn HIGH) = []"
    "rlists s6 (queue_key qn NORMAL) = [task_to_dict tN]"
    "rlists s6 (queue_key qn LOW) = [task_to_dict tL]"
    by (simp_all add: s6_def l5 queue_key_inj)
  have l7: "rlists s7 (queue_key qn CRITICAL) = []"
    "rlists s7 (queue_key qn HIGH) = []"
    "rlists s7 (queue_key qn NORMAL) = []"
    "rlists s7 (queue_key qn LOW) = [task_to_dict tL]"
    by (simp_all add: s7_def l6 queue_key_inj)
  have l8: "rlists s8 (queue_key qn CRITICAL) = []"
    "rlists s8 (queue_key qn HIGH) = []"
    "rlists s8 (queue_key qn NORMAL) = []"
    "rlists s8 (queue_key qn LOW) = []"
    by (simp_all add: s8_def l7 queue_key_inj)
  have d1: "dequeue qn n1 s4 = (s5, Inr (Some tC))"
    by (simp add: dequeue_nothing_due f z l4 rt s5_def)
  have d2: "dequeue qn n2 s5 = (s6, Inr (Some tH))"
    by (simp add: dequeue_nothing_due f z l5 rt s6_def)
  have d3: "dequeue qn n3 s6 = (s7, Inr (Some tN))"
    by (simp add: dequeue_nothing_due f z l6 rt s7_def)
  have d4: "dequeue qn n4 s7 = (s8, Inr (Some tL))"
    by (simp add: dequeue_nothing_due f z l7 rt s8_def)
  have d5: "dequeue qn n5 s8 = (s8, Inr None)"
    by (simp add: dequeue_nothing_due f z l8)
  show "snd (dequeue_run qn [n1, n2, n3, n4, n5] (fst (enqueue_all [tL, tN, tH, tC] s))) =
        [Inr (Some tC), Inr (Some tH), Inr (Some tN), Inr (Some tL), Inr None]"
    unfolding enq by (simp add: d1 d2 d3 d4 d5)
qed

theorem dequeue_priority_order_witness:
  "snd (dequeue_run ''notif'' [1, 2, 3, 4, 5]
         (fst (enqueue_all
                [sample_task ''l'' LOW 3 0, sample_task ''n'' NORMAL 3 0,
                 sample_task ''h'' HIGH 3 0, sample_task ''c'' CRITICAL 3 0] empty_redis))) =
     [Inr (Some (sample_task ''c'' CRITICAL 3 0)), Inr (Some (sample_task ''h'' HIGH 3 0)),
      Inr (Some (sample_task ''n'' NORMAL 3 0)), Inr (Some (sample_task ''l'' LOW 3 0)),
      Inr None] \<and>
   snd (dequeue ''notif'' 9
         (empty_redis\<lparr>rlists := (rlists empty_redis)
            (queue_key ''notif'' LOW := [task_to_dict (sample_task ''l'' LOW 3 0)],
             queue_key ''notif'' CRITICAL := [task_to_dict (sample_task ''c'' CRITICAL 3 0)])\<rparr>)) =
     Inr (Some (sample_task ''c'' CRITICAL 3 0))"
proof -
  let ?s = "empty_redis\<lparr>rlists := (rlists empty_redis)
            (queue_key ''notif'' LOW := [task_to_dict (sample_task ''l'' LOW 3 0)],
             queue_key ''notif'' CRITICAL := [task_to_dict (sample_task ''c'' CRITICAL 3 0)])\<rparr>"
  have a: "faults empty_redis = []" and b: "zsets empty_redis (scheduled_key ''notif'') = []"
    and c: "\<forall>p. rlists empty_redis (queue_key ''notif'' p) = []"
    by (simp_all add: empty_redis_def)
  have a': "faults ?s = []" and b': "zsets ?s (scheduled_key ''notif'') = []"
    and c': "rlists ?s (queue_key ''notif'' CRITICAL) \<noteq> []"
    by (simp_all add: empty_redis_def)
  have t: "queue_name (sample_task i p m 0) = ''notif''" "priority (sample_task i p m 0) = p"
    "delay_seconds (sample_task i p m 0) = 0" for i p m
    by (simp_all add: sample_task_def)
  have r: "dict_to_task 9 (task_to_dict (sample_task ''c'' CRITICAL 3 0)) =
      Inr (sample_task ''c'' CRITICAL 3 0)"
    using dict_to_task_to_dict [of 9 "sample_task ''c'' CRITICAL 3 0"] by (simp add: sample_task_def)
  from dequeue_priority_order [OF a b, of 0 "sample_task ''l'' LOW 3 0" "sample_task ''n'' NORMAL 3 0"
      "sample_task ''h'' HIGH 3 0" "sample_task ''c'' CRITICAL 3 0" 1 2 3 4 5]
    dequeue_priority_order [OF a' b', of 9] c c' t r
  show ?thesis by simp
qed

text \<open>
  Claim C3. On a server that answers, for a queue with nothing in its scheduled set and
  nothing in the ready lists of higher priority than \<open>p\<close>: two tasks \<open>a\<close> then \<open>b\<close> of
  priority \<open>p\<close> enqueued with no delay are both accepted, \<open>b\<close> sits in front of \<open>a\<close> in
  the ready list, and successive calls of \<^verbatim>\<open>dequeue\<close> return first the records that
  were in the list before, oldest first, then \<open>a\<close>, then \<open>b\<close>.
\<close>

theorem fifo_within_priority:
  assumes "faults s = []" and "zsets s (scheduled_key qn) = []"
    and "\<forall>q. PRIORITY_WEIGHTS p < PRIORITY_WEIGHTS q \<longrightarrow> rlists s (queue_key qn q) = []"
    and "queue_name a = qn" and "queue_name b = qn" and "priority a = p" and "priority b = p"
    and "delay_seconds a = 0" and "delay_seconds b = 0"
    and "length nows = length (rlists s (queue_key qn p))"
  shows "snd (enqueue_all [a, b] s) = [Inr True, Inr True] \<and>
         rlists (fst (enqueue_all [a, b] s)) (queue_key qn p) =
           task_to_dict b # task_to_dict a # rlists s (queue_key qn p) \<and>
         snd (dequeue_run qn (nows @ [n1, n2]) (fst (enqueue_all [a, b] s))) =
           map2 dequeue_result_of nows (rev (rlists s (queue_key qn p))) @
           [Inr (Some a), Inr (Some b)]"
proof -
  let ?L = "rlists s (queue_key qn p)"
  define s2 where "s2 = s\<lparr>rlists := (rlists s)(queue_key qn p := task_to_dict b # task_to_dict a # ?L)\<rparr>"
  have enq: "enqueue_all [a, b] s = (s2, [Inr True, Inr True])"
    using assms by (simp add: enqueue_ready s2_def)
  have f: "faults s2 = []" and z: "zsets s2 (scheduled_key qn) = []"
    and l: "rlists s2 (queue_key qn p) = task_to_dict b # task_to_dict a # ?L"
    using assms(1,2) by (simp_all add: s2_def)
  have hi: "\<forall>q. PRIORITY_WEIGHTS p < PRIORITY_WEIGHTS q \<longrightarrow> rlists s2 (queue_key qn q) = []"
    using assms(3) by (auto simp add: s2_def queue_key_inj)
  have len: "length (nows @ [n1, n2]) \<le> length (rlists s2 (queue_key qn p))"
    using assms(10) by (simp add: l)
  have rt: "dequeue_result_of n1 (task_to_dict a) = Inr (Some a)"
    "dequeue_result_of n2 (task_to_dict b) = Inr (Some b)"
    using assms(8,9) by (simp_all add: dequeue_result_of_def dict_to_task_to_dict)
  have "snd (dequeue_run qn (nows @ [n1, n2]) s2) =
      map2 dequeue_result_of (nows @ [n1, n2]) (rev ?L @ [task_to_dict a, task_to_dict b])"
    using dequeue_run_fifo [OF f z hi len] by (simp add: l)
  also have "\<dots> = map2 dequeue_result_of nows (rev ?L) @ [Inr (Some a), Inr (Some b)]"
    using assms(10) by (simp add: rt)
  finally show ?thesis unfolding enq by (simp add: l)
qed

theorem fifo_within_priority_witness:
  "snd (enqueue_all [sample_task ''a'' NORMAL 3 0, sample_task ''b'' NORMAL 3 0] empty_redis) =
     [Inr True, Inr True] \<and>
   snd (dequeue_run ''notif'' [1, 2]
         (fst (enqueue_all [sample_task ''a'' NORMAL 3 0, sample_task ''b'' NORMAL 3 0]
                empty_redis))) =
     [Inr (Some (sample_task ''a'' NORMAL 3 0)), Inr (Some (sample_task ''b'' NORMAL 3 0))]"
proof -
  have a: "faults empty_redis = []" and b: "zsets empty_redis (scheduled_key ''notif'') = []"
    and c: "\<forall>q. PRIORITY_WEIGHTS NORMAL < PRIORITY_WEIGHTS q \<longrightarrow>
              rlists empty_redis (queue_key ''notif'' q) = []"
    and l: "length ([] :: datetime list) = length (rlists empty_redis (queue_key ''notif'' NORMAL))"
    by (simp_all add: empty_redis_def)
  have t: "queue_name (sample_task i p m 0) = ''notif''" "priority (sample_task i p m 0) = p"
    "delay_seconds (sample_task i p m 0) = 0" for i p m
    by (simp_all add: sample_task_def)
  from fifo_within_priority [OF a b c t(1) t(1) t(2) t(2) t(3) t(3) l, of "''a''" 3 "''b''" 3 1 2]
  show ?thesis by (simp add: empty_redis_def)
qed


subsection \<open>Retry and backoff\<close>

text \<open>
  Claim C2. On a server that answers, \<^verbatim>\<open>fail_task\<close> on a task with
  \<open>retry_count < max_retries\<close> returns \<open>True\<close> and leaves the task with \<open>retry_count\<close>
  one higher, \<open>delay_seconds = min (2 ^ retry_count * 60) 3600\<close> for the new count and
  \<open>scheduled_at = now + delay_seconds\<close>, every other field as it was; the record of that
  task is the new head entry of the scheduled set, scored by its \<open>scheduled_at\<close>, and no
  ready list and no failed list changes. Failing a task with \<open>max_retries = 5\<close> six
  times over gives the delays 120, 240, 480, 960, 1920; the sixth call returns \<open>False\<close>,
  leaves the task and the scheduled set alone and puts the entry with \<open>retry_count = 5\<close>
  at the head of the failed list.
\<close>

theorem fail_task_retry_backoff:
  assumes "faults s = []"
  shows
  "(retry_count t < max_retries t \<and> snd (fail_task t msg now s) = Inr (t', ok) \<longrightarrow>
      ok \<and>
      retry_count t' = retry_count t + 1 \<and>
      delay_seconds t' = min (2 ^ retry_count t' * 60) 3600 \<and>
      scheduled_at t' = now + timedelta_seconds (delay_seconds t') \<and>
      t' = t\<lparr>retry_count := retry_count t', delay_seconds := delay_seconds t',
             scheduled_at := scheduled_at t'\<rparr> \<and>
      zsets (fst (fail_task t msg now s)) (scheduled_key (queue_name t)) =
        (task_to_dict t', timestamp (scheduled_at t')) #
        filter (\<lambda>e. fst e \<noteq> task_to_dict t') (zsets s (scheduled_key (queue_name t))) \<and>
      rlists (fst (fail_task t msg now s)) = rlists s \<and>
      failed_lists (fst (fail_task t msg now s)) = failed_lists s) \<and>
   (retry_count t = 0 \<and> max_retries t = 5 \<longrightarrow>
      map (\<lambda>r. (retry_count (fst r), delay_seconds (fst r), snd r))
        (snd (fail_repeatedly t msg [n1, n2, n3, n4, n5, n6] s)) =
        [(1, 120, True), (2, 240, True), (3, 480, True), (4, 960, True), (5, 1920, True),
         (5, 1920, False)] \<and>
      zsets (fst (fail_repeatedly t msg [n1, n2, n3, n4, n5, n6] s)) =
        zsets (fst (fail_repeatedly t msg [n1, n2, n3, n4, n5] s)) \<and>
      rlists (fst (fail_repeatedly t msg [n1, n2, n3, n4, n5, n6] s)) = rlists s \<and>
      failed_lists (fst (fail_repeatedly t msg [n1, n2, n3, n4, n5, n6] s))
          (failed_key (queue_name t)) =
        failed_entry (t\<lparr>retry_count := 5, delay_seconds := 1920,
                        scheduled_at := n5 + timedelta_seconds 1920\<rparr>) msg n6 #
        failed_lists s (failed_key (queue_name t)))"
proof -
  have one: "retry_count t < max_retries t \<and> snd (fail_task t msg now s) = Inr (t', ok) \<longrightarrow>
      ok \<and>
      retry_count t' = retry_count t + 1 \<and>
      delay_seconds t' = min (2 ^ retry_count t' * 60) 3600 \<and>
      scheduled_at t' = now + timedelta_seconds (delay_seconds t') \<and>
      t' = t\<lparr>retry_count := retry_count t', delay_seconds := delay_seconds t',
             scheduled_at := scheduled_at t'\<rparr> \<and>
      zsets (fst (fail_task t msg now s)) (scheduled_key (queue_name t)) =
        (task_to_dict t', timestamp (scheduled_at t')) #
        filter (\<lambda>e. fst e \<noteq> task_to_dict t') (zsets s (scheduled_key (queue_name t))) \<and>
      rlists (fst (fail_task t msg now s)) = rlists s \<and>
      failed_lists (fst (fail_task t msg now s)) = failed_lists s"
    using assms by (auto simp add: fail_task_retry retried_def)
  have many: "retry_count t = 0 \<and> max_retries t = 5 \<longrightarrow>
      map (\<lambda>r. (retry_count (fst r), delay_seconds (fst r), snd r))
        (snd (fail_repeatedly t msg [n1, n2, n3, n4, n5, n6] s)) =
        [(1, 120, True), (2, 240, True), (3, 480, True), (4, 960, True), (5, 1920, True),
         (5, 1920, False)] \<and>
      zsets (fst (fail_repeatedly t msg [n1, n2, n3, n4, n5, n6] s)) =
        zsets (fst (fail_repeatedly t msg [n1, n2, n3, n4, n5] s)) \<and>
      rlists (fst (fail_repeatedly t msg [n1, n2, n3, n4, n5, n6] s)) = rlists s \<and>
      failed_lists (fst (fail_repeatedly t msg [n1, n2, n3, n4, n5, n6] s))
          (failed_key (queue_name t)) =
        failed_entry (t\<lparr>retry_count := 5, delay_seconds := 1920,
                        scheduled_at := n5 + timedelta_seconds 1920\<rparr>) msg n6 #
        failed_lists s (failed_key (queue_name t))"
  proof (intro impI, elim conjE)
    assume rc: "retry_count t = 0" and mr: "max_retries t = 5"
    define t1 where "t1 = retried t n1"
    define t2 where "t2 = retried t1 n2"
    define t3 where "t3 = retried t2 n3"
    define t4 where "t4 = retried t3 n4"
    define t5 where "t5 = retried t4 n5"
    define s1 where "s1 = fst (fail_task t msg n1 s)"
    define s2 where "s2 = fst (fail_task t1 msg n2 s1)"
    define s3 where "s3 = fst (fail_task t2 msg n3 s2)"
    define s4 where "s4 = fst (fail_task t3 msg n4 s3)"
    define s5 where "s5 = fst (fail_task t4 msg n5 s4)"
    define s6 where "s6 = fst (fail_task t5 msg n6 s5)"
    note ts = t1_def t2_def t3_def t4_def t5_def
    have counts: "retry_count t1 = 1" "retry_count t2 = 2" "retry_count t3 = 3"
      "retry_count t4 = 4" "retry_count t5 = 5"
      "max_retries t1 = 5" "max_retries t2 = 5" "max_retries t3 = 5"
      "max_retries t4 = 5" "max_retries t5 = 5"
      "queue_name t5 = queue_name t"
      by (simp_all add: ts rc mr)
    have delays: "delay_seconds t1 = 120" "delay_seconds t2 = 240" "delay_seconds t3 = 480"
      "delay_seconds t4 = 960" "delay_seconds t5 = 1920"
      by (simp_all add: ts rc retried_delay(1))
    have e1: "fail_task t msg n1 s = (s1, Inr (t1, True))" and f1: "faults s1 = []"
      and l1: "rlists s1 = rlists s" and d1: "failed_lists s1 = failed_lists s"
      using assms rc mr by (simp_all add: s1_def t1_def fail_task_retry)
    have e2: "fail_task t1 msg n2 s1 = (s2, Inr (t2, True))" and f2: "faults s2 = []"
      and l2: "rlists s2 = rlists s" and d2: "failed_lists s2 = failed_lists s"
      using f1 l1 d1 counts by (simp_all add: s2_def t2_def fail_task_retry)
    have e3: "fail_task t2 msg n3 s2 = (s3, Inr (t3, True))" and f3: "faults s3 = []"
      and l3: "rlists s3 = rlists s" and d3: "failed_lists s3 = failed_lists s"
      using f2 l2 d2 counts by (simp_all add: s3_def t3_def fail_task_retry)
    have e4: "fail_task t3 msg n4 s3 = (s4, Inr (t4, True))" and f4: "faults s4 = []"
      and l4: "rlists s4 = rlists s" and d4: "failed_lists s4 = failed_lists s"
      using f3 l3 d3 counts by (simp_all add: s4_def t4_def fail_task_retry)
    have e5: "fail_task t4 msg n5 s4 = (s5, Inr (t5, True))" and f5: "faults s5 = []"
      and l5: "rlists s5 = rlists s" and d5: "failed_lists s5 = failed_lists s"
      using f4 l4 d4 counts by (simp_all add: s5_def t5_def fail_task_retry)
    have e6: "fail_task t5 msg n6 s5 = (s6, Inr (t5, False))"
      and z6: "zsets s6 = zsets s5" and l6: "rlists s6 = rlists s"
      and d6: "failed_lists s6 (failed_key (queue_name t)) =
                 failed_entry t5 msg n6 # failed_lists s (failed_key (queue_name t))"
      using f5 l5 d5 counts by (simp_all add: s6_def fail_task_cases)
    have t5_eq: "t5 = t\<lparr>retry_count := 5, delay_seconds := 1920,
                        scheduled_at := n5 + timedelta_seconds 1920\<rparr>"
      by (simp add: ts retried_def rc)
    have run6: "fail_repeatedly t msg [n1, n2, n3, n4, n5, n6] s =
        (s6, [(t1, True), (t2, True), (t3, True), (t4, True), (t5, True), (t5, False)])"
      by (simp add: e1 e2 e3 e4 e5 e6)
    have run5: "fail_repeatedly t msg [n1, n2, n3, n4, n5] s =
        (s5, [(t1, True), (t2, True), (t3, True), (t4, True), (t5, True)])"
      by (simp add: e1 e2 e3 e4 e5)
    show "map (\<lambda>r. (retry_count (fst r), delay_seconds (fst r), snd r))
        (snd (fail_repeatedly t msg [n1, n2, n3, n4, n5, n6] s)) =
        [(1, 120, True), (2, 240, True), (3, 480, True), (4, 960, True), (5, 1920, True),
         (5, 1920, False)] \<and>
      zsets (fst (fail_repeatedly t msg [n1, n2, n3, n4, n5, n6] s)) =
        zsets (fst (fail_repeatedly t msg [n1, n2, n3, n4, n5] s)) \<and>
      rlists (fst (fail_repeatedly t msg [n1, n2, n3, n4, n5, n6] s)) = rlists s \<and>
      failed_lists (fst (fail_repeatedly t msg [n1, n2, n3, n4, n5, n6] s))
          (failed_key (queue_name t)) =
        failed_entry (t\<lparr>retry_count := 5, delay_seconds := 1920,
                        scheduled_at := n5 + timedelta_seconds 1920\<rparr>) msg n6 #
        failed_lists s (failed_key (queue_name t))"
      unfolding run6 run5 using t5_eq by (simp add: counts delays z6 l6 d6)
  qed
  from one many show ?thesis by blast
qed

theorem fail_task_retry_backoff_witness:
  "faults empty_redis = [] \<and>
   retry_count (sample_task ''t1'' NORMAL 5 0) < max_retries (sample_task ''t1'' NORMAL 5 0) \<and>
   snd (fail_task (sample_task ''t1'' NORMAL 5 0) (Some ''boom'') 7000000 empty_redis) =
     Inr (retried (sample_task ''t1'' NORMAL 5 0) 7000000, True) \<and>
   delay_seconds (retried (sample_task ''t1'' NORMAL 5 0) 7000000) = 120 \<and>
   scheduled_at (retried (sample_task ''t1'' NORMAL 5 0) 7000000) = 127000000 \<and>
   map (\<lambda>r. (retry_count (fst r), delay_seconds (fst r), snd r))
     (snd (fail_repeatedly (sample_task ''t1'' NORMAL 5 0) (Some ''boom'')
            [7000000, 200000000, 500000000, 1000000000, 2000000000, 4000000000] empty_redis)) =
     [(1, 120, True), (2, 240, True), (3, 480, True), (4, 960, True), (5, 1920, True),
      (5, 1920, False)]"
proof -
  let ?t = "sample_task ''t1'' NORMAL 5 0"
  have a: "faults empty_redis = []" by (simp add: empty_redis_def)
  have b: "retry_count ?t < max_retries ?t" "retry_count ?t = 0" "max_retries ?t = 5"
    by (simp_all add: sample_task_def)
  have c: "snd (fail_task ?t (Some ''boom'') 7000000 empty_redis) = Inr (retried ?t 7000000, True)"
    using a b by (simp add: fail_task_retry)
  from fail_task_retry_backoff [OF a, of ?t "Some ''boom''" 7000000 "retried ?t 7000000" True
      7000000 200000000 500000000 1000000000 2000000000 4000000000] a b c
  show ?thesis by (simp add: timedelta_seconds_def)
qed

text \<open>
  Claim C10. For a task with \<open>retry_count \<ge> max_retries\<close>, \<^verbatim>\<open>fail_task\<close> returns
  \<open>False\<close> whatever the server does, also when the entry has been pushed on the failed
  list; it returns \<open>False\<close> too, with every region as it was, when the first command
  fails. It returns \<open>True\<close> only for a task with \<open>retry_count < max_retries\<close> whose
  record then stands in the scheduled set.
\<close>

theorem fail_task_False_is_ambiguous:
  "(max_retries t \<le> retry_count t \<longrightarrow> snd (fail_task t msg now s) = Inr (t, False)) \<and>
   (max_retries t \<le> retry_count t \<and> faults s = [] \<longrightarrow>
      failed_lists (fst (fail_task t msg now s)) (failed_key (queue_name t)) =
        failed_entry t msg now # failed_lists s (failed_key (queue_name t))) \<and>
   (fails_next s \<longrightarrow>
      snd (fail_task t msg now s) = Inr (t, False) \<and>
      failed_lists (fst (fail_task t msg now s)) = failed_lists s \<and>
      zsets (fst (fail_task t msg now s)) = zsets s \<and>
      rlists (fst (fail_task t msg now s)) = rlists s \<and>
      rsets (fst (fail_task t msg now s)) = rsets s) \<and>
   (snd (fail_task t msg now s) = Inr (t', True) \<longrightarrow>
      retry_count t < max_retries t \<and>
      (task_to_dict t', timestamp (scheduled_at t')) \<in>
        set (zsets (fst (fail_task t msg now s)) (scheduled_key (queue_name t))))"
proof -
  have "snd (fail_task t msg now s) = Inr (t', True) \<longrightarrow>
      retry_count t < max_retries t \<and>
      (task_to_dict t', timestamp (scheduled_at t')) \<in>
        set (zsets (fst (fail_task t msg now s)) (scheduled_key (queue_name t)))"
    by (auto simp add: fail_task_cases split: if_splits)
  then show ?thesis by (simp add: fail_task_cases)
qed

theorem fail_task_False_is_ambiguous_witness:
  "snd (fail_task (sample_task ''t1'' NORMAL 0 0) (Some ''boom'') 5000000 empty_redis) =
     Inr (sample_task ''t1'' NORMAL 0 0, False) \<and>
   failed_lists (fst (fail_task (sample_task ''t1'' NORMAL 0 0) (Some ''boom'') 5000000 empty_redis))
       ''failed:notif'' =
     [failed_entry (sample_task ''t1'' NORMAL 0 0) (Some ''boom'') 5000000] \<and>
   snd (fail_task (sample_task ''t1'' NORMAL 0 0) (Some ''boom'') 5000000
          (empty_redis\<lparr>faults := [True]\<rparr>)) =
     Inr (sample_task ''t1'' NORMAL 0 0, False) \<and>
   failed_lists (fst (fail_task (sample_task ''t1'' NORMAL 0 0) (Some ''boom'') 5000000
          (empty_redis\<lparr>faults := [True]\<rparr>))) ''failed:notif'' = [] \<and>
   snd (fail_task (sample_task ''t2'' NORMAL 3 0) (Some ''boom'') 5000000 empty_redis) =
     Inr (retried (sample_task ''t2'' NORMAL 3 0) 5000000, True) \<and>
   retry_count (sample_task ''t2'' NORMAL 3 0) < max_retries (sample_task ''t2'' NORMAL 3 0)"
proof -
  let ?t = "sample_task ''t1'' NORMAL 0 0" and ?u = "sample_task ''t2'' NORMAL 3 0"
  have k: "failed_key (queue_name ?t) = ''failed:notif''"
    by (simp add: failed_key_def sample_task_def)
  have a: "max_retries ?t \<le> retry_count ?t" by (simp add: sample_task_def)
  have b: "faults empty_redis = []" by (simp add: empty_redis_def)
  have c: "fails_next (empty_redis\<lparr>faults := [True]\<rparr>)" by (simp add: fails_next_def)
  have d: "snd (fail_task ?u (Some ''boom'') 5000000 empty_redis) = Inr (retried ?u 5000000, True)"
    by (simp add: fail_task_cases b sample_task_def)
  from fail_task_False_is_ambiguous [of ?t "Some ''boom''" 5000000 empty_redis]
    fail_task_False_is_ambiguous [of ?t "Some ''boom''" 5000000 "empty_redis\<lparr>faults := [True]\<rparr>"]
    fail_task_False_is_ambiguous [of ?u "Some ''boom''" 5000000 empty_redis "retried ?u 5000000"]
    a b c d k
  show ?thesis by (simp add: empty_redis_def)
qed

subsection \<open>Completion\<close>

text \<open>
  Claim C8. \<^verbatim>\<open>complete_task\<close> never raises: it returns \<open>True\<close> exactly when the server
  answered. It changes no ready list, no scheduled set and no failed list; on a server
  that answers it removes the record of the task from the processing set of its queue and
  nothing else, so a second call returns \<open>True\<close> and changes nothing, and so does a call
  for a task whose record is not in the processing set.
\<close>

theorem complete_task_idempotent:
  "snd (complete_task t s) = Inr (\<not> fails_next s) \<and>
   rlists (fst (complete_task t s)) = rlists s \<and>
   zsets (fst (complete_task t s)) = zsets s \<and>
   failed_lists (fst (complete_task t s)) = failed_lists s \<and>
   (faults s = [] \<longrightarrow>
      snd (complete_task t s) = Inr True \<and>
      rsets (fst (complete_task t s)) =
        (rsets s)(processing_key (queue_name t) :=
           rsets s (processing_key (queue_name t)) - {task_to_dict t}) \<and>
      complete_task t (fst (complete_task t s)) = (fst (complete_task t s), Inr True)) \<and>
   (faults s = [] \<and> task_to_dict t \<notin> rsets s (processing_key (queue_name t)) \<longrightarrow>
      complete_task t s = (s, Inr True))"
proof -
  have idem: "unmark_processing qn d (unmark_processing qn d u) = unmark_processing qn d u"
    for qn d u
    by (simp add: unmark_processing_def)
  have noop: "unmark_processing qn d u = u" if "d \<notin> rsets u (processing_key qn)" for qn d u
    using that by (cases u) (simp add: unmark_processing_def)
  show ?thesis
    by (simp add: complete_task_cases idem noop)
qed

theorem complete_task_idempotent_witness:
  "faults empty_redis = [] \<and>
   task_to_dict (sample_task ''t1'' NORMAL 3 0) \<notin>
     rsets empty_redis (processing_key (queue_name (sample_task ''t1'' NORMAL 3 0))) \<and>
   complete_task (sample_task ''t1'' NORMAL 3 0) empty_redis = (empty_redis, Inr True) \<and>
   complete_task (sample_task ''t1'' NORMAL 3 0)
     (fst (complete_task (sample_task ''t1'' NORMAL 3 0) empty_redis)) = (empty_redis, Inr True)"
proof -
  have a: "faults empty_redis = []" by (simp add: empty_redis_def)
  have b: "task_to_dict (sample_task ''t1'' NORMAL 3 0) \<notin>
     rsets empty_redis (processing_key (queue_name (sample_task ''t1'' NORMAL 3 0)))"
    by (simp add: empty_redis_def)
  from complete_task_idempotent [of "sample_task ''t1'' NORMAL 3 0" empty_redis] a b
  show ?thesis by simp
qed

subsection \<open>Serialisation and construction\<close>

text \<open>
  Claim C9. The dictionary \<^verbatim>\<open>enqueue\<close> writes is the one \<^verbatim>\<open>_task_to_dict\<close> builds, and
  it does not depend on \<open>delay_seconds\<close>. \<^verbatim>\<open>_dict_to_task\<close> after \<^verbatim>\<open>_task_to_dict\<close>
  gives the task back with \<open>delay_seconds = 0\<close> and every other field unchanged, and
  every task \<^verbatim>\<open>dequeue\<close> returns has \<open>delay_seconds = 0\<close>.
\<close>

theorem serialised_record_drops_delay_seconds:
  "enqueue_task_data t = task_to_dict t \<and>
   task_to_dict (t\<lparr>delay_seconds := n\<rparr>) = task_to_dict t \<and>
   dict_to_task now (task_to_dict t) = Inr (t\<lparr>delay_seconds := 0\<rparr>) \<and>
   (snd (dequeue qn now s) = Inr (Some t') \<longrightarrow> delay_seconds t' = 0)"
proof -
  have "snd (dequeue qn now s) = Inr (Some t') \<longrightarrow> delay_seconds t' = 0"
    using dequeue_result [of qn now s t'] by (auto simp add: dict_to_task_delay)
  moreover have "task_to_dict (t\<lparr>delay_seconds := n\<rparr>) = task_to_dict t"
    by (simp add: task_to_dict_def)
  ultimately show ?thesis
    by (simp add: enqueue_task_data_eq dict_to_task_to_dict)
qed

theorem serialised_record_drops_delay_seconds_witness:
  "delay_seconds (sample_task ''t1'' HIGH 3 10) = 10 \<and>
   snd (dequeue ''notif'' 20000000 (fst (enqueue (sample_task ''t1'' HIGH 3 10) empty_redis))) =
     Inr (Some ((sample_task ''t1'' HIGH 3 10)\<lparr>delay_seconds := 0\<rparr>)) \<and>
   delay_seconds ((sample_task ''t1'' HIGH 3 10)\<lparr>delay_seconds := 0\<rparr>) = 0"
proof -
  let ?t = "sample_task ''t1'' HIGH 3 10"
  let ?s = "fst (enqueue ?t empty_redis)"
  have a: "faults empty_redis = []" by (simp add: empty_redis_def)
  have t: "queue_name ?t = ''notif''" "delay_seconds ?t = 10" "priority ?t = HIGH"
    "timestamp (scheduled_at ?t) = 11000000" "d_priority (task_to_dict ?t) = ''high''"
    by (simp_all add: sample_task_def timestamp_def timedelta_seconds_def task_to_dict_def)
  have s: "?s = empty_redis\<lparr>zsets := (zsets empty_redis)(scheduled_key ''notif'' :=
      [(task_to_dict ?t, 11000000)])\<rparr>"
    by (simp add: enqueue_ok a t) (simp add: empty_redis_def)
  have f: "faults ?s = []" by (simp add: s a)
  have d: "due ''notif'' 20000000 ?s = [(task_to_dict ?t, 11000000)]"
    by (simp add: due_def s timestamp_def)
  have sw: "fst (process_scheduled_tasks ''notif'' 20000000 ?s) =
      empty_redis\<lparr>zsets := (zsets empty_redis)(scheduled_key ''notif'' := []),
        rlists := (rlists empty_redis)(queue_key ''notif'' HIGH := [task_to_dict ?t])\<rparr>"
    unfolding process_scheduled_tasks_ok [OF f] d
    by (simp add: prog_defs zrem_ok lpush_ok s a t QueuePriority_of_def) (simp add: empty_redis_def)
  have h: "snd (dequeue ''notif'' 20000000 ?s) = Inr (Some (?t\<lparr>delay_seconds := 0\<rparr>))"
    unfolding dequeue_ok [OF f] sw
    by (simp add: queue_key_inj dict_to_task_to_dict) (simp add: empty_redis_def)
  from serialised_record_drops_delay_seconds
    [of ?t 0 20000000 "''notif''" ?s "?t\<lparr>delay_seconds := 0\<rparr>"] h t
  show ?thesis by simp
qed



subsection \<open>The retry budget\<close>

text \<open>
  Claim C4. The empty server holds no record with \<open>retry_count > max_retries\<close>, and a
  task constructed with \<open>retry_count = 0\<close> has \<open>retry_count \<le> max_retries\<close>. When
  every record the server holds has \<open>retry_count \<le> max_retries\<close> and so has the task
  an operation is given, then so has every record the server holds after
  \<^verbatim>\<open>enqueue\<close>, \<^verbatim>\<open>dequeue\<close>, \<^verbatim>\<open>complete_task\<close>, \<^verbatim>\<open>fail_task\<close>, \<^verbatim>\<open>_process_task\<close>
  and any number of turns of the worker loop, whatever commands fail, and so has the task
  \<^verbatim>\<open>dequeue\<close> returns and the task \<^verbatim>\<open>fail_task\<close> leaves. A failure at
  \<open>retry_count = max_retries\<close> returns \<open>False\<close>, leaves the task, the scheduled sets and
  the ready lists as they were and, on a server that answers, puts the entry with the
  unchanged \<open>retry_count\<close> at the head of the failed list; so does the first failure of a
  task with \<open>max_retries = 0\<close>.
\<close>

theorem retry_count_bounded:
  assumes "store_ok s" and "task_ok t"
  shows
  "store_ok empty_redis \<and>
   (QueueTask_init clock i qn' tt pl pr mr 0 ds ca sa = Inr t0 \<longrightarrow> task_ok t0) \<and>
   store_ok (fst (enqueue t s)) \<and>
   store_ok (fst (dequeue qn now s)) \<and>
   (\<forall>t'. snd (dequeue qn now s) = Inr (Some t') \<longrightarrow> task_ok t') \<and>
   store_ok (fst (complete_task t s)) \<and>
   store_ok (fst (fail_task t msg now s)) \<and>
   (\<forall>t' ok. snd (fail_task t msg now s) = Inr (t', ok) \<longrightarrow> task_ok t') \<and>
   store_ok (fst (process_task task_processors t now s)) \<and>
   store_ok (fst (start_worker task_processors qn clocks s)) \<and>
   (retry_count t = max_retries t \<longrightarrow>
      snd (fail_task t msg now s) = Inr (t, False) \<and>
      zsets (fst (fail_task t msg now s)) = zsets s \<and>
      rlists (fst (fail_task t msg now s)) = rlists s) \<and>
   (retry_count t = max_retries t \<and> faults s = [] \<longrightarrow>
      failed_lists (fst (fail_task t msg now s)) (failed_key (queue_name t)) =
        failed_entry t msg now # failed_lists s (failed_key (queue_name t)) \<and>
      d_retry_count (failed_entry t msg now) = retry_count t) \<and>
   (max_retries t = 0 \<and> faults s = [] \<longrightarrow>
      snd (fail_task t msg now s) = Inr (t, False) \<and>
      failed_lists (fst (fail_task t msg now s)) (failed_key (queue_name t)) =
        failed_entry t msg now # failed_lists s (failed_key (queue_name t)) \<and>
      zsets (fst (fail_task t msg now s)) = zsets s \<and>
      rlists (fst (fail_task t msg now s)) = rlists s)"
proof -
  note s = assms(1)
  have init: "QueueTask_init clock i qn' tt pl pr mr 0 ds ca sa = Inr t0 \<longrightarrow> task_ok t0"
    by (auto simp add: QueueTask_init_def Let_def task_ok_def)
  have a: "store_ok (fst (enqueue t s))"
    by (rule tripleD(1) [OF store_ok_enqueue [OF assms(2)] s])
  have b: "store_ok (fst (dequeue qn now s))"
    by (rule tripleD(1) [OF store_ok_dequeue s])
  have c: "\<forall>t'. snd (dequeue qn now s) = Inr (Some t') \<longrightarrow> task_ok t'"
    using tripleD(2) [OF store_ok_dequeue s] by blast
  have d: "store_ok (fst (complete_task t s))"
    by (rule tripleD(1) [OF store_ok_complete_task s])
  have e: "store_ok (fst (fail_task t msg now s))"
    by (rule tripleD(1) [OF store_ok_fail_task [OF assms(2)] s])
  have f: "\<forall>t' ok. snd (fail_task t msg now s) = Inr (t', ok) \<longrightarrow> task_ok t'"
    using tripleD(2) [OF store_ok_fail_task [OF assms(2)] s, of msg now] by fastforce
  have g: "store_ok (fst (process_task task_processors t now s))"
    by (rule tripleD(1) [OF store_ok_process_task [OF assms(2)] s])
  have h: "store_ok (fst (start_worker task_processors qn clocks s))"
    by (rule tripleD(1) [OF store_ok_start_worker s])
  have i: "retry_count t = max_retries t \<longrightarrow>
      snd (fail_task t msg now s) = Inr (t, False) \<and>
      zsets (fst (fail_task t msg now s)) = zsets s \<and>
      rlists (fst (fail_task t msg now s)) = rlists s"
    by (simp add: fail_task_cases)
  have j: "retry_count t = max_retries t \<and> faults s = [] \<longrightarrow>
      failed_lists (fst (fail_task t msg now s)) (failed_key (queue_name t)) =
        failed_entry t msg now # failed_lists s (failed_key (queue_name t)) \<and>
      d_retry_count (failed_entry t msg now) = retry_count t"
    by (simp add: fail_task_cases failed_entry_def task_to_dict_def task_dict.defs)
  have k: "max_retries t = 0 \<and> faults s = [] \<longrightarrow>
      snd (fail_task t msg now s) = Inr (t, False) \<and>
      failed_lists (fst (fail_task t msg now s)) (failed_key (queue_name t)) =
        failed_entry t msg now # failed_lists s (failed_key (queue_name t)) \<and>
      zsets (fst (fail_task t msg now s)) = zsets s \<and>
      rlists (fst (fail_task t msg now s)) = rlists s"
    by (simp add: fail_task_cases)
  from store_ok_empty init a b c d e f g h i j k show ?thesis by blast
qed

theorem retry_count_bounded_witness:
  "store_ok empty_redis \<and> task_ok (sample_task ''t1'' NORMAL 0 0) \<and>
   retry_count (sample_task ''t1'' NORMAL 0 0) = max_retries (sample_task ''t1'' NORMAL 0 0) \<and>
   max_retries (sample_task ''t1'' NORMAL 0 0) = 0 \<and> faults empty_redis = [] \<and>
   store_ok (fst (fail_task (sample_task ''t1'' NORMAL 0 0) (Some ''boom'') 5 empty_redis)) \<and>
   snd (fail_task (sample_task ''t1'' NORMAL 0 0) (Some ''boom'') 5 empty_redis) =
     Inr (sample_task ''t1'' NORMAL 0 0, False) \<and>
   failed_lists (fst (fail_task (sample_task ''t1'' NORMAL 0 0) (Some ''boom'') 5 empty_redis))
       ''failed:notif'' = [failed_entry (sample_task ''t1'' NORMAL 0 0) (Some ''boom'') 5] \<and>
   zsets (fst (fail_task (sample_task ''t1'' NORMAL 0 0) (Some ''boom'') 5 empty_redis)) =
     (\<lambda>_. []) \<and>
   rlists (fst (fail_task (sample_task ''t1'' NORMAL 0 0) (Some ''boom'') 5 empty_redis)) =
     (\<lambda>_. []) \<and>
   store_ok (fst (enqueue (sample_task ''t1'' NORMAL 0 0) empty_redis)) \<and>
   snd (dequeue ''notif'' 5 (fst (enqueue (sample_task ''t1'' NORMAL 0 0) empty_redis))) =
     Inr (Some (sample_task ''t1'' NORMAL 0 0)) \<and>
   store_ok (fst (dequeue ''notif'' 5 (fst (enqueue (sample_task ''t1'' NORMAL 0 0) empty_redis))))"
proof -
  let ?t = "sample_task ''t1'' NORMAL 0 0"
  have a: "store_ok empty_redis" by (rule store_ok_empty)
  have b: "task_ok ?t" "retry_count ?t = max_retries ?t" "max_retries ?t = 0"
    by (simp_all add: task_ok_def sample_task_def)
  have c: "faults empty_redis = []" by (simp add: empty_redis_def)
  have k: "failed_key (queue_name ?t) = ''failed:notif''"
    by (simp add: failed_key_def sample_task_def)
  have t: "queue_name ?t = ''notif''" "priority ?t = NORMAL" "delay_seconds ?t = 0"
    by (simp_all add: sample_task_def)
  let ?s1 = "fst (enqueue ?t empty_redis)"
  have s1: "?s1 = empty_redis\<lparr>rlists := (rlists empty_redis)(queue_key ''notif'' NORMAL := [task_to_dict ?t])\<rparr>"
    by (simp add: enqueue_ready c t) (simp add: empty_redis_def)
  have f1: "faults ?s1 = []" and d1: "due ''notif'' 5 ?s1 = []"
    unfolding s1 by (simp_all add: due_def empty_redis_def)
  have r: "dict_to_task 5 (task_to_dict ?t) = Inr ?t"
    using dict_to_task_to_dict [of 5 ?t] t by simp
  have deq: "snd (dequeue ''notif'' 5 ?s1) = Inr (Some ?t)"
    unfolding dequeue_nothing_due [OF f1 d1] unfolding s1
    by (simp add: queue_key_inj r) (simp add: empty_redis_def)
  have ok1: "store_ok ?s1"
    using retry_count_bounded [OF a b(1), where qn = "''notif''" and now = 5
      and msg = "Some ''boom''" and task_processors = Map.empty and clocks = "[]"] by blast
  from retry_count_bounded [OF ok1 b(1), where qn = "''notif''" and now = 5
      and msg = "Some ''boom''" and task_processors = Map.empty and clocks = "[]"]
  have ok2: "store_ok (fst (dequeue ''notif'' 5 ?s1))" by blast
  from retry_count_bounded [OF a b(1), where qn = "''notif''" and now = 5
      and msg = "Some ''boom''" and task_processors = Map.empty and clocks = "[]"]
    a b c k deq ok2
  show ?thesis by (simp add: empty_redis_def)
qed

subsection \<open>Delayed tasks\<close>




subsection \<open>Missing processors\<close>

text \<open>
  Claim C7. For a task whose type has no registered processor, \<^verbatim>\<open>_process_task\<close>
  returns after the one call \<^verbatim>\<open>fail_task\<close> with the message
  \<^verbatim>\<open>No processor for task type: \<close> and the type, as it returns after the call of
  \<^verbatim>\<open>fail_task\<close> with the text of the exception when a registered processor raises. On
  a server that answers, a task with retries left is rescheduled with \<open>retry_count\<close> one
  higher after the backoff delay, and a task without is put on the failed list with that
  message. Neither a turn of the worker nor the worker loop raises. A worker that turns
  \<open>max_retries - retry_count + 1\<close> times on an otherwise empty queue, each time once the
  task is due, leaves the queue empty and the task on the failed list, with
  \<open>retry_count = max_retries\<close> and that message.
\<close>

theorem missing_processor_fails_the_task:
  assumes "task_processors (task_type t) = None"
  shows
  "process_task task_processors t now s =
     (fst (fail_task t (Some (''No processor for task type: '' @ task_type t)) now s), Inr ()) \<and>
   (handlers (task_type t) = Some p \<and> p (payload t) = Inl e \<longrightarrow>
      process_task handlers t now s = (fst (fail_task t (Some (str_exn e)) now s), Inr ())) \<and>
   (faults s = [] \<and> retry_count t < max_retries t \<longrightarrow>
      (\<exists>d. zsets (fst (process_task task_processors t now s)) (scheduled_key (queue_name t)) =
             (d, timestamp (now + timedelta_seconds (min (2 ^ (retry_count t + 1) * 60) 3600))) #
             filter (\<lambda>e. fst e \<noteq> d) (zsets s (scheduled_key (queue_name t))) \<and>
           d_id d = id' t \<and> d_retry_count d = retry_count t + 1) \<and>
      rlists (fst (process_task task_processors t now s)) = rlists s \<and>
      failed_lists (fst (process_task task_processors t now s)) = failed_lists s) \<and>
   (faults s = [] \<and> max_retries t \<le> retry_count t \<longrightarrow>
      failed_lists (fst (process_task task_processors t now s)) (failed_key (queue_name t)) =
        failed_entry t (Some (''No processor for task type: '' @ task_type t)) now #
        failed_lists s (failed_key (queue_name t)) \<and>
      zsets (fst (process_task task_processors t now s)) = zsets s \<and>
      rlists (fst (process_task task_processors t now s)) = rlists s) \<and>
   snd (worker_turn task_processors qn clock s) = Inr () \<and>
   snd (start_worker task_processors qn clocks s) = Inr () \<and>
   (faults s = [] \<and> queue_empty qn s \<and> queue_name t = qn \<and>
    retry_count t \<le> max_retries t \<and> length clocks = max_retries t - retry_count t + 1 \<and>
    clocks_fit t clocks \<longrightarrow>
      faults (fst (start_worker task_processors qn clocks (fst (enqueue t s)))) = [] \<and>
      queue_empty qn (fst (start_worker task_processors qn clocks (fst (enqueue t s)))) \<and>
      (\<exists>t'. failed_lists (fst (start_worker task_processors qn clocks (fst (enqueue t s))))
              (failed_key qn) =
            failed_entry t' (Some (''No processor for task type: '' @ task_type t))
              (snd (last clocks)) #
            failed_lists s (failed_key qn) \<and>
          id' t' = id' t \<and> task_type t' = task_type t \<and>
          max_retries t' = max_retries t \<and> retry_count t' = max_retries t))"
proof -
  let ?msg = "Some (''No processor for task type: '' @ task_type t)"
  have a: "process_task task_processors t now s = (fst (fail_task t ?msg now s), Inr ())"
    using assms by (rule process_task_no_processor)
  have b: "handlers (task_type t) = Some p \<and> p (payload t) = Inl e \<longrightarrow>
      process_task handlers t now s = (fst (fail_task t (Some (str_exn e)) now s), Inr ())"
    using process_task_processor_raises [of handlers t p e now s] by blast
  have c: "faults s = [] \<and> retry_count t < max_retries t \<longrightarrow>
      (\<exists>d. zsets (fst (process_task task_processors t now s)) (scheduled_key (queue_name t)) =
             (d, timestamp (now + timedelta_seconds (min (2 ^ (retry_count t + 1) * 60) 3600))) #
             filter (\<lambda>e. fst e \<noteq> d) (zsets s (scheduled_key (queue_name t))) \<and>
           d_id d = id' t \<and> d_retry_count d = retry_count t + 1) \<and>
      rlists (fst (process_task task_processors t now s)) = rlists s \<and>
      failed_lists (fst (process_task task_processors t now s)) = failed_lists s"
  proof (intro impI, elim conjE)
    assume f: "faults s = []" and lt: "retry_count t < max_retries t"
    have "zsets (fst (fail_task t ?msg now s)) (scheduled_key (queue_name t)) =
        (task_to_dict (retried t now),
         timestamp (now + timedelta_seconds (min (2 ^ (retry_count t + 1) * 60) 3600))) #
        filter (\<lambda>e. fst e \<noteq> task_to_dict (retried t now)) (zsets s (scheduled_key (queue_name t)))"
      using f lt by (simp add: fail_task_retry retried_delay)
    moreover have "d_id (task_to_dict (retried t now)) = id' t"
      "d_retry_count (task_to_dict (retried t now)) = retry_count t + 1"
      by (simp_all add: task_to_dict_def)
    ultimately have "\<exists>d. zsets (fst (fail_task t ?msg now s)) (scheduled_key (queue_name t)) =
             (d, timestamp (now + timedelta_seconds (min (2 ^ (retry_count t + 1) * 60) 3600))) #
             filter (\<lambda>e. fst e \<noteq> d) (zsets s (scheduled_key (queue_name t))) \<and>
           d_id d = id' t \<and> d_retry_count d = retry_count t + 1"
      by blast
    moreover have "rlists (fst (fail_task t ?msg now s)) = rlists s"
      "failed_lists (fst (fail_task t ?msg now s)) = failed_lists s"
      using f lt by (simp_all add: fail_task_retry)
    ultimately show "(\<exists>d. zsets (fst (process_task task_processors t now s))
               (scheduled_key (queue_name t)) =
             (d, timestamp (now + timedelta_seconds (min (2 ^ (retry_count t + 1) * 60) 3600))) #
             filter (\<lambda>e. fst e \<noteq> d) (zsets s (scheduled_key (queue_name t))) \<and>
           d_id d = id' t \<and> d_retry_count d = retry_count t + 1) \<and>
      rlists (fst (process_task task_processors t now s)) = rlists s \<and>
      failed_lists (fst (process_task task_processors t now s)) = failed_lists s"
      unfolding a by simp
  qed
  have d: "faults s = [] \<and> max_retries t \<le> retry_count t \<longrightarrow>
      failed_lists (fst (process_task task_processors t now s)) (failed_key (queue_name t)) =
        failed_entry t ?msg now # failed_lists s (failed_key (queue_name t)) \<and>
      zsets (fst (process_task task_processors t now s)) = zsets s \<and>
      rlists (fst (process_task task_processors t now s)) = rlists s"
    unfolding a by (simp add: fail_task_cases)
  have e: "snd (worker_turn task_processors qn clock s) = Inr ()"
    by (rule worker_turn_returns)
  have f: "snd (start_worker task_processors qn clocks s) = Inr ()"
    by (rule start_worker_returns)
  have g: "faults s = [] \<and> queue_empty qn s \<and> queue_name t = qn \<and>
    retry_count t \<le> max_retries t \<and> length clocks = max_retries t - retry_count t + 1 \<and>
    clocks_fit t clocks \<longrightarrow>
      faults (fst (start_worker task_processors qn clocks (fst (enqueue t s)))) = [] \<and>
      queue_empty qn (fst (start_worker task_processors qn clocks (fst (enqueue t s)))) \<and>
      (\<exists>t'. failed_lists (fst (start_worker task_processors qn clocks (fst (enqueue t s))))
              (failed_key qn) =
            failed_entry t' ?msg (snd (last clocks)) # failed_lists s (failed_key qn) \<and>
          id' t' = id' t \<and> task_type t' = task_type t \<and>
          max_retries t' = max_retries t \<and> retry_count t' = max_retries t)"
    using worker_exhausts_retries [of task_processors t s qn clocks] assms
    by (simp add: no_processor_message_def)
  from a b c d e f g show ?thesis by blast
qed

theorem missing_processor_fails_the_task_witness:
  "process_task Map.empty (sample_task ''t1'' NORMAL 1 0) 5000000 empty_redis =
     (fst (fail_task (sample_task ''t1'' NORMAL 1 0) (Some ''No processor for task type: send'')
             5000000 empty_redis), Inr ()) \<and>
   clocks_fit (sample_task ''t1'' NORMAL 1 0) [(2000000, 3000000), (200000000, 201000000)] \<and>
   queue_empty ''notif'' empty_redis \<and>
   snd (start_worker Map.empty ''notif'' [(2000000, 3000000), (200000000, 201000000)]
          (fst (enqueue (sample_task ''t1'' NORMAL 1 0) empty_redis))) = Inr () \<and>
   queue_empty ''notif''
     (fst (start_worker Map.empty ''notif'' [(2000000, 3000000), (200000000, 201000000)]
            (fst (enqueue (sample_task ''t1'' NORMAL 1 0) empty_redis)))) \<and>
   map (\<lambda>f. (d_id f, d_retry_count f, d_error_message f, d_failed_at f))
     (failed_lists
       (fst (start_worker Map.empty ''notif'' [(2000000, 3000000), (200000000, 201000000)]
              (fst (enqueue (sample_task ''t1'' NORMAL 1 0) empty_redis))))
       (failed_key ''notif'')) =
     [(''t1'', 1, Some ''No processor for task type: send'', isoformat 201000000)]"
proof -
  let ?t = "sample_task ''t1'' NORMAL 1 0"
  let ?cs = "[(2000000, 3000000), (200000000, 201000000)] :: (datetime \<times> datetime) list"
  have np: "Map.empty (task_type ?t) = (None :: processor option)" by simp
  have f: "faults empty_redis = []" and q: "queue_empty ''notif'' empty_redis"
    by (simp_all add: empty_redis_def queue_empty_def)
  have t: "queue_name ?t = ''notif''" "retry_count ?t \<le> max_retries ?t"
    "length ?cs = max_retries ?t - retry_count ?t + 1" "task_type ?t = ''send''"
    "id' ?t = ''t1''" "max_retries ?t = 1"
    by (simp_all add: sample_task_def)
  have fit: "clocks_fit ?t ?cs"
    by (simp add: sample_task_def retried_def timestamp_def timedelta_seconds_def)
  have e: "failed_lists empty_redis (failed_key ''notif'') = []" by (simp add: empty_redis_def)
  note one = missing_processor_fails_the_task [where task_processors = Map.empty and t = ?t
      and now = 5000000 and s = empty_redis and qn = "''notif''" and clocks = ?cs
      and clock = "(2000000, 3000000)" and handlers = Map.empty, OF np]
  note two = missing_processor_fails_the_task [where task_processors = Map.empty and t = ?t
      and now = 5000000 and s = "fst (enqueue ?t empty_redis)" and qn = "''notif''"
      and clocks = ?cs and clock = "(2000000, 3000000)" and handlers = Map.empty, OF np]
  let ?end = "fst (start_worker Map.empty ''notif'' ?cs (fst (enqueue ?t empty_redis)))"
  have c1: "process_task Map.empty ?t 5000000 empty_redis =
     (fst (fail_task ?t (Some ''No processor for task type: send'') 5000000 empty_redis), Inr ())"
    using one [THEN conjunct1] by (simp only: t(4) append.simps)
  have c4: "snd (start_worker Map.empty ''notif'' ?cs (fst (enqueue ?t empty_redis))) = Inr ()"
    using two [THEN conjunct2, THEN conjunct2, THEN conjunct2, THEN conjunct2, THEN conjunct2,
      THEN conjunct1] .
  have hyp: "faults empty_redis = [] \<and> queue_empty ''notif'' empty_redis \<and>
      queue_name ?t = ''notif'' \<and> retry_count ?t \<le> max_retries ?t \<and>
      length ?cs = max_retries ?t - retry_count ?t + 1 \<and> clocks_fit ?t ?cs"
    using f q t(1,2,3) fit by (intro conjI)
  note last = one [THEN conjunct2, THEN conjunct2, THEN conjunct2, THEN conjunct2,
      THEN conjunct2, THEN conjunct2, THEN mp, OF hyp]
  from last have c5: "queue_empty ''notif'' ?end" by (elim conjE)
  from last obtain t' where fl: "failed_lists ?end (failed_key ''notif'') =
        failed_entry t' (Some (''No processor for task type: '' @ task_type ?t))
          (snd (last ?cs)) # failed_lists empty_redis (failed_key ''notif'')"
    and t': "id' t' = id' ?t" "retry_count t' = max_retries ?t"
    by (elim conjE exE)
  have c6: "map (\<lambda>f. (d_id f, d_retry_count f, d_error_message f, d_failed_at f))
      (failed_lists ?end (failed_key ''notif'')) =
     [(''t1'', 1, Some ''No processor for task type: send'', isoformat 201000000)]"
    unfolding fl e by (simp add: t' sample_task_def)
  from c1 fit q c4 c5 c6 show ?thesis by (intro conjI)
qed

end
